theory Spec2Isabelle
  imports Main "HOL-Library.Word" "HOL-Library.Signed_Division"
begin

section \<open>The SQL execution core: values, expressions, statements\<close>

text \<open>
  A shallow embedding of the embedded SQL engine (package \<open>sql\<close>: the statement and
  expression tree with its compilation methods, and the lexer). Go interfaces with a closed set of
  implementations are datatypes, structs are records, \<open>(result, error)\<close> pairs are sums with the
  error on the left, \<open>int64\<close> is \<open>64 word\<close> read as two's complement, \<open>uint32\<close> ids are
  \<open>32 word\<close>, byte slices are lists of \<open>8 word\<close>.
\<close>

subsection \<open>Constants and errors\<close>

type_synonym byte = "8 word"
type_synonym int64 = "64 word"
type_synonym uint32 = "32 word"

text \<open>\<open>type SQLValueType = string\<close> with its six constants.\<close>

type_synonym SQLValueType = string

definition IntegerType :: SQLValueType where "IntegerType = ''INTEGER''"
definition BooleanType :: SQLValueType where "BooleanType = ''BOOLEAN''"
definition VarcharType :: SQLValueType where "VarcharType = ''VARCHAR''"
definition BLOBType :: SQLValueType where "BLOBType = ''BLOB''"
definition TimestampType :: SQLValueType where "TimestampType = ''TIMESTAMP''"
definition AnyType :: SQLValueType where "AnyType = ''ANY''"

text \<open>\<open>CmpOperator\<close>, \<open>LogicOperator\<close>, \<open>NumOperator\<close>: the \<open>iota\<close> enumerations.\<close>

datatype CmpOperator = EQ | NE | LT | LE | GT | GE
datatype LogicOperator = AND | OR
datatype NumOperator = ADDOP | SUBSOP | DIVOP | MULTOP

text \<open>
  The error values the modelled code returns. \<open>ErrNotYetSupported\<close> is
  \<open>errors.New("not yet supported")\<close>; \<open>ErrExternal\<close> stands for an error produced by a
  collaborator outside the package (store, regular expressions); \<open>RuntimePanic\<close> is a
  run-time panic (a nil pointer dereference or a failed single-value type assertion); \<open>EOF\<close> is
  \<open>io.EOF\<close>; \<open>Wrapped err\<close> is \<open>fmt.Errorf("...: %w", err)\<close>, the error \<open>err\<close> wrapped
  with a message.
\<close>

datatype error =
    ErrIllegalArguments | ErrMissingParameter | ErrUnsupportedParameter
  | ErrInvalidNumberOfValues | ErrDuplicatedColumn
  | ErrInvalidTypes | ErrInferredMultipleTypes | ErrNotComparableValues
  | ErrInvalidValue | ErrInvalidCondition
  | ErrNoDatabaseSelected | ErrDatabaseDoesNotExist | ErrTableDoesNotExist
  | ErrColumnDoesNotExist | ErrInvalidColumn
  | ErrPKCanNotBeNull | ErrNotNullableColumnCannotBeNull
  | ErrNoValueForAutoIncrementalColumn | ErrMaxKeyLengthExceeded
  | ErrMaxNumberOfColumnsInIndexExceeded | ErrLimitedAutoIncrement
  | ErrLimitedIndexCreation | ErrLimitedKeyType | ErrLimitedGroupBy
  | ErrLimitedOrderBy | ErrHavingClauseRequiresGroupClause | ErrNoAvailableIndex
  | ErrDivisionByZero | ErrNoMoreRows | ErrNoSupported | ErrUnexpected
  | ErrKeyNotFound | ErrKeyAlreadyExists
  | ErrNotYetSupported | ErrExternal string | RuntimePanic | EOF
  | Wrapped error

subsection \<open>The engine-supplied KV constraint\<close>

text \<open>
  \<open>deletedOrMustNotExist(key, currValue, err)\<close>: \<open>err\<close> is the outcome of the store's lookup
  of \<open>key\<close> (\<open>None\<close> is Go's \<open>nil\<close>), \<open>currValue\<close> the value found. The result is the
  constraint's verdict, \<open>None\<close> meaning accepted.
\<close>

definition deletedOrMustNotExist :: "byte list \<Rightarrow> byte list \<Rightarrow> error option \<Rightarrow> error option" where
  "deletedOrMustNotExist key currValue err =
     (if err = Some ErrKeyNotFound then None
      else if err \<noteq> None then err
      else if length currValue > 0 \<and> currValue ! 0 = 1 then None
      else Some ErrKeyAlreadyExists)"

subsection \<open>Typed values\<close>

text \<open>
  \<open>interface{}\<close> values as far as the code distinguishes them: what \<open>TypedValue.Value()\<close>
  returns and what a caller may pass as a statement parameter (\<open>Param.substitute\<close> switches on
  the dynamic type). \<open>GoOther\<close> is a value of any other dynamic type.
\<close>

datatype GoValue =
    GoNil | GoBool bool | GoString string | GoInt int64 | GoUint int64 | GoUint64 int64
  | GoInt64 int64 | GoBytes "byte list" | GoOther

text \<open>The implementations of \<open>TypedValue\<close>: \<open>NullValue{t}\<close>, \<open>Number{val}\<close>, \<open>Varchar{val}\<close>,
  \<open>Bool{val}\<close>, \<open>Blob{val}\<close>.\<close>

datatype TypedValue =
    NullValue SQLValueType
  | Number int64
  | Varchar string
  | Bool bool
  | Blob "byte list"

fun Type :: "TypedValue \<Rightarrow> SQLValueType" where
  "Type (NullValue t) = t"
| "Type (Number v) = IntegerType"
| "Type (Varchar v) = VarcharType"
| "Type (Bool v) = BooleanType"
| "Type (Blob v) = BLOBType"

fun Value :: "TypedValue \<Rightarrow> GoValue" where
  "Value (NullValue t) = GoNil"
| "Value (Number v) = GoInt64 v"
| "Value (Varchar v) = GoString v"
| "Value (Bool v) = GoBool v"
| "Value (Blob v) = GoBytes v"

fun isNull :: "TypedValue \<Rightarrow> bool" where
  "isNull (NullValue t) = True"
| "isNull _ = False"

text \<open>\<open>bytes.Compare\<close> of the Go standard library: lexicographic order on byte slices, with
  result \<open>-1\<close>, \<open>0\<close> or \<open>1\<close>.\<close>

fun bytes_Compare :: "byte list \<Rightarrow> byte list \<Rightarrow> int" where
  "bytes_Compare [] [] = 0"
| "bytes_Compare [] (y # ys) = -1"
| "bytes_Compare (x # xs) [] = 1"
| "bytes_Compare (x # xs) (y # ys) =
     (if x < y then -1 else if y < x then 1 else bytes_Compare xs ys)"

text \<open>\<open>[]byte(s)\<close> for a Go string.\<close>

definition bytes_of :: "string \<Rightarrow> byte list" where
  "bytes_of s = map of_char s"

text \<open>
  \<open>Compare\<close>, one equation per receiver type. The type assertion \<open>val.Value().(int64)\<close> (and
  its siblings) cannot fail where it is reached: the argument is not a \<open>NullValue\<close> and has the
  receiver's type, so it is a value of the receiver's kind; the remaining patterns are closed with
  \<open>RuntimePanic\<close> (the failed type assertion) for totality.
\<close>

fun Compare :: "TypedValue \<Rightarrow> TypedValue \<Rightarrow> error + int" where
  "Compare (NullValue t) val =
     (if t \<noteq> AnyType \<and> Type val \<noteq> AnyType \<and> t \<noteq> Type val then Inl ErrNotComparableValues
      else if Value val = GoNil then Inr 0
      else Inr (-1))"
| "Compare (Number v) val =
     (if isNull val then Inr 1
      else if Type val \<noteq> IntegerType then Inl ErrNotComparableValues
      else (case Value val of
              GoInt64 rval \<Rightarrow> (if v = rval then Inr 0 else if rval <s v then Inr 1 else Inr (-1))
            | _ \<Rightarrow> Inl RuntimePanic))"
| "Compare (Varchar v) val =
     (if isNull val then Inr 1
      else if Type val \<noteq> VarcharType then Inl ErrNotComparableValues
      else (case Value val of
              GoString rval \<Rightarrow> Inr (bytes_Compare (bytes_of v) (bytes_of rval))
            | _ \<Rightarrow> Inl RuntimePanic))"
| "Compare (Bool v) val =
     (if isNull val then Inr 1
      else if Type val \<noteq> BooleanType then Inl ErrNotComparableValues
      else (case Value val of
              GoBool rval \<Rightarrow> (if v = rval then Inr 0 else if v then Inr 1 else Inr (-1))
            | _ \<Rightarrow> Inl RuntimePanic))"
| "Compare (Blob v) val =
     (if isNull val then Inr 1
      else if Type val \<noteq> BLOBType then Inl ErrNotComparableValues
      else (case Value val of
              GoBytes rval \<Rightarrow> Inr (bytes_Compare v rval)
            | _ \<Rightarrow> Inl RuntimePanic))"

fun cmpSatisfiesOp :: "int \<Rightarrow> CmpOperator \<Rightarrow> bool" where
  "cmpSatisfiesOp cmp op =
     (if cmp = 0 then op = EQ \<or> op = LE \<or> op = GE
      else if cmp = -1 then op = NE \<or> op = LT \<or> op = LE
      else if cmp = 1 then op = NE \<or> op = GT \<or> op = GE
      else False)"

subsection \<open>Catalog entities\<close>

text \<open>
  The catalog structs, as the statements use them: a column (\<open>id\<close>, \<open>colName\<close>,
  \<open>colType\<close>, \<open>maxLen\<close>, \<open>autoIncrement\<close>, \<open>notNull\<close>), an index (\<open>id\<close>, \<open>unique\<close>,
  \<open>cols\<close>) and a table with its database's id and name (\<open>table.db.id\<close>, \<open>table.db.name\<close>),
  its columns in declared order (\<open>cols\<close>; \<open>colsByID\<close> and the lookup by name are views of it),
  its indexes (a Go map from the column-id tuple to the index: here the list of its values),
  \<open>indexesByColID\<close>, \<open>primaryIndex\<close>, \<open>autoIncrementPK\<close> and \<open>maxPK\<close>.
\<close>

record Column =
  col_id :: uint32
  colName :: string
  colType :: SQLValueType
  maxLen :: int
  autoIncrement :: bool
  notNull :: bool

record Index =
  idx_id :: uint32
  idx_unique :: bool
  idx_cols :: "Column list"

record Table =
  tbl_id :: uint32
  tbl_name :: string
  tbl_db_id :: uint32
  tbl_db_name :: string
  tbl_cols :: "Column list"
  primaryIndex :: Index
  indexes :: "Index list"
  indexesByColID :: "uint32 \<Rightarrow> Index list option"
  autoIncrementPK :: bool
  maxPK :: int64

text \<open>Modelled from the spec: \<open>Table.GetColumnByName\<close> is defined with the catalog, outside the modelled files; the
  catalog offers lookup of a column by name, and an unknown name is the schema error
  \<open>ColumnDoesNotExist\<close>.\<close>

definition GetColumnByName :: "Table \<Rightarrow> string \<Rightarrow> error + Column" where
  "GetColumnByName table n =
     (case find (\<lambda>c. colName c = n) (tbl_cols table) of
        None \<Rightarrow> Inl ErrColumnDoesNotExist
      | Some c \<Rightarrow> Inr c)"

subsection \<open>Expressions\<close>

text \<open>
  \<open>Selector\<close> has two implementations, \<open>ColSelector{db, table, col, as}\<close> and
  \<open>AggColSelector{aggFn, db, table, col, as}\<close>. \<open>ValueExp\<close> is implemented by the typed values
  (\<open>TV\<close>), \<open>SysFn{fn}\<close>, \<open>Param{id, pos}\<close>, the selectors (\<open>Sel\<close>), \<open>NumExp\<close>, \<open>NotBoolExp\<close>,
  \<open>LikeBoolExp{sel, pattern}\<close>, \<open>CmpBoolExp\<close>, \<open>BinBoolExp\<close> and \<open>ExistsBoolExp\<close> (whose
  query field no method reads).
\<close>

datatype Selector =
    ColSelector string string string string
  | AggColSelector string string string string string

datatype ValueExp =
    TV TypedValue
  | SysFn string
  | Param string int
  | Sel Selector
  | NumExp NumOperator ValueExp ValueExp
  | NotBoolExp ValueExp
  | LikeBoolExp Selector string
  | CmpBoolExp CmpOperator ValueExp ValueExp
  | BinBoolExp LogicOperator ValueExp ValueExp
  | ExistsBoolExp

record Row =
  Values :: "string \<Rightarrow> TypedValue option"

text \<open>What the expression methods take from outside the package: the clock behind \<open>NOW\<close>,
  \<open>strings.ToUpper\<close> and \<open>regexp.MatchString\<close>.\<close>

record Ext =
  time_Now_UnixNano :: int64
  strings_ToUpper :: "string \<Rightarrow> string"
  regexp_MatchString :: "string \<Rightarrow> string \<Rightarrow> error + bool"

definition EncodeSelector :: "string \<Rightarrow> string \<Rightarrow> string \<Rightarrow> string \<Rightarrow> string" where
  "EncodeSelector aggFn db table col = aggFn @ ''('' @ db @ ''.'' @ table @ ''.'' @ col @ '')''"

fun resolve :: "Selector \<Rightarrow> string \<Rightarrow> string \<Rightarrow> string \<times> string \<times> string \<times> string" where
  "resolve (ColSelector db table col as) implicitDB implicitTable =
     ([], if db \<noteq> [] then db else implicitDB, if table \<noteq> [] then table else implicitTable, col)"
| "resolve (AggColSelector aggFn db table col as) implicitDB implicitTable =
     (aggFn, if db \<noteq> [] then db else implicitDB, if table \<noteq> [] then table else implicitTable, col)"

definition EncodeSelector_of :: "string \<times> string \<times> string \<times> string \<Rightarrow> string" where
  "EncodeSelector_of r = (case r of (aggFn, db, table, col) \<Rightarrow> EncodeSelector aggFn db table col)"

text \<open>\<open>substitute\<close>: the Go methods overwrite the operands in place and return the receiver; the
  model returns the rewritten expression.\<close>

fun substitute :: "ValueExp \<Rightarrow> (string \<Rightarrow> GoValue option) \<Rightarrow> error + ValueExp" where
  "substitute (Param pid pos) params =
     (case params pid of
        None \<Rightarrow> Inl ErrMissingParameter
      | Some GoNil \<Rightarrow> Inr (TV (NullValue AnyType))
      | Some (GoBool v) \<Rightarrow> Inr (TV (Bool v))
      | Some (GoString v) \<Rightarrow> Inr (TV (Varchar v))
      | Some (GoInt v) \<Rightarrow> Inr (TV (Number v))
      | Some (GoUint v) \<Rightarrow> Inr (TV (Number v))
      | Some (GoUint64 v) \<Rightarrow> Inr (TV (Number v))
      | Some (GoInt64 v) \<Rightarrow> Inr (TV (Number v))
      | Some (GoBytes v) \<Rightarrow> Inr (TV (Blob v))
      | Some GoOther \<Rightarrow> Inl ErrUnsupportedParameter)"
| "substitute (NumExp op l r) params =
     (case substitute l params of Inl e \<Rightarrow> Inl e
      | Inr rlexp \<Rightarrow> (case substitute r params of Inl e \<Rightarrow> Inl e
          | Inr rrexp \<Rightarrow> Inr (NumExp op rlexp rrexp)))"
| "substitute (NotBoolExp e) params =
     (case substitute e params of Inl err \<Rightarrow> Inl err | Inr rexp \<Rightarrow> Inr (NotBoolExp rexp))"
| "substitute (CmpBoolExp op l r) params =
     (case substitute l params of Inl e \<Rightarrow> Inl e
      | Inr rlexp \<Rightarrow> (case substitute r params of Inl e \<Rightarrow> Inl e
          | Inr rrexp \<Rightarrow> Inr (CmpBoolExp op rlexp rrexp)))"
| "substitute (BinBoolExp op l r) params =
     (case substitute l params of Inl e \<Rightarrow> Inl e
      | Inr rlexp \<Rightarrow> (case substitute r params of Inl e \<Rightarrow> Inl e
          | Inr rrexp \<Rightarrow> Inr (BinBoolExp op rlexp rrexp)))"
| "substitute (TV v) params = Inr (TV v)"
| "substitute (SysFn f) params = Inr (SysFn f)"
| "substitute (Sel s) params = Inr (Sel s)"
| "substitute (LikeBoolExp s p) params = Inr (LikeBoolExp s p)"
| "substitute ExistsBoolExp params = Inr ExistsBoolExp"

text \<open>Go's \<open>int64\<close> quotient truncates towards zero and wraps at the most negative value.\<close>

definition int64_quot :: "int64 \<Rightarrow> int64 \<Rightarrow> int64" where
  "int64_quot a b = word_of_int (sint a sdiv sint b)"

text \<open>\<open>reduce(catalog, row, implicitDB, implicitTable)\<close>; no variant reads the catalog. A nil
  \<open>row\<close> is \<open>None\<close>.\<close>

fun reduce :: "Ext \<Rightarrow> ValueExp \<Rightarrow> Row option \<Rightarrow> string \<Rightarrow> string \<Rightarrow> error + TypedValue" where
  "reduce ext (TV v) row implicitDB implicitTable = Inr v"
| "reduce ext (SysFn f) row implicitDB implicitTable =
     (if strings_ToUpper ext f = ''NOW'' then Inr (Number (time_Now_UnixNano ext))
      else Inl ErrNotYetSupported)"
| "reduce ext (Param pid pos) row implicitDB implicitTable = Inl ErrUnexpected"
| "reduce ext (Sel (ColSelector db table col as)) row implicitDB implicitTable =
     (case row of
        None \<Rightarrow> Inl ErrInvalidValue
      | Some r \<Rightarrow>
          (case Values r (EncodeSelector_of (resolve (ColSelector db table col as) implicitDB implicitTable)) of
             None \<Rightarrow> Inl ErrColumnDoesNotExist
           | Some v \<Rightarrow> Inr v))"
| "reduce ext (Sel (AggColSelector aggFn db table col as)) row implicitDB implicitTable =
     (case row of
        None \<Rightarrow> Inl RuntimePanic
      | Some r \<Rightarrow>
          (case Values r (EncodeSelector_of (resolve (AggColSelector aggFn db table col as) implicitDB implicitTable)) of
             None \<Rightarrow> Inl ErrColumnDoesNotExist
           | Some v \<Rightarrow> Inr v))"
| "reduce ext (NumExp op l r) row implicitDB implicitTable =
     (case reduce ext l row implicitDB implicitTable of Inl e \<Rightarrow> Inl e
      | Inr vl \<Rightarrow> (case reduce ext r row implicitDB implicitTable of Inl e \<Rightarrow> Inl e
      | Inr vr \<Rightarrow>
         (case Value vl of
            GoInt64 nl \<Rightarrow>
              (case Value vr of
                 GoInt64 nr \<Rightarrow>
                   (case op of
                      ADDOP \<Rightarrow> Inr (Number (nl + nr))
                    | SUBSOP \<Rightarrow> Inr (Number (nl - nr))
                    | DIVOP \<Rightarrow> (if nr = 0 then Inl ErrDivisionByZero else Inr (Number (int64_quot nl nr)))
                    | MULTOP \<Rightarrow> Inr (Number (nl * nr)))
               | _ \<Rightarrow> Inl ErrInvalidValue)
          | _ \<Rightarrow> Inl ErrInvalidValue)))"
| "reduce ext (NotBoolExp e) row implicitDB implicitTable =
     (case reduce ext e row implicitDB implicitTable of Inl err \<Rightarrow> Inl err
      | Inr v \<Rightarrow> (case Value v of GoBool r \<Rightarrow> Inr (Bool (\<not> r)) | _ \<Rightarrow> Inl ErrInvalidCondition))"
| "reduce ext (LikeBoolExp s pattern) row implicitDB implicitTable =
     (case row of
        None \<Rightarrow> Inl RuntimePanic
      | Some r \<Rightarrow>
          (case Values r (EncodeSelector_of (resolve s implicitDB implicitTable)) of
             None \<Rightarrow> Inl ErrColumnDoesNotExist
           | Some v \<Rightarrow>
               (if Type v \<noteq> VarcharType then Inl ErrInvalidColumn
                else (case Value v of
                        GoString str \<Rightarrow>
                          (case regexp_MatchString ext pattern str of
                             Inl e \<Rightarrow> Inl e
                           | Inr matched \<Rightarrow> Inr (Bool matched))
                      | _ \<Rightarrow> Inl RuntimePanic))))"
| "reduce ext (CmpBoolExp op l r) row implicitDB implicitTable =
     (case reduce ext l row implicitDB implicitTable of Inl e \<Rightarrow> Inl e
      | Inr vl \<Rightarrow> (case reduce ext r row implicitDB implicitTable of Inl e \<Rightarrow> Inl e
      | Inr vr \<Rightarrow> (case Compare vl vr of Inl e \<Rightarrow> Inl e
      | Inr c \<Rightarrow> Inr (Bool (cmpSatisfiesOp c op)))))"
| "reduce ext (BinBoolExp op l r) row implicitDB implicitTable =
     (case reduce ext l row implicitDB implicitTable of Inl e \<Rightarrow> Inl e
      | Inr vl \<Rightarrow> (case reduce ext r row implicitDB implicitTable of Inl e \<Rightarrow> Inl e
      | Inr vr \<Rightarrow>
         (case vl of
            Bool bl \<Rightarrow>
              (case vr of
                 Bool br \<Rightarrow> (case op of AND \<Rightarrow> Inr (Bool (bl \<and> br)) | OR \<Rightarrow> Inr (Bool (bl \<or> br)))
               | _ \<Rightarrow> Inl ErrInvalidValue)
          | _ \<Rightarrow> Inl ErrInvalidValue)))"
| "reduce ext ExistsBoolExp row implicitDB implicitTable = Inl ErrNotYetSupported"

fun isConstant :: "ValueExp \<Rightarrow> bool" where
  "isConstant (TV v) = True"
| "isConstant (SysFn f) = False"
| "isConstant (Param pid pos) = True"
| "isConstant (Sel s) = False"
| "isConstant (NumExp op l r) = (isConstant l \<and> isConstant r)"
| "isConstant (NotBoolExp e) = isConstant e"
| "isConstant (LikeBoolExp s p) = False"
| "isConstant (CmpBoolExp op l r) = (isConstant l \<and> isConstant r)"
| "isConstant (BinBoolExp op l r) = (isConstant l \<and> isConstant r)"
| "isConstant ExistsBoolExp = False"

subsection \<open>Value ranges\<close>

text \<open>
  \<open>typedValueSemiRange\<close> and \<open>typedValueRange\<close>; a nil semi-range pointer is \<open>None\<close>. The
  map \<open>rangesByColID\<close> (\<open>map[uint32]*typedValueRange\<close>) is an association list with at most
  one entry per column id; the Go methods mutate the range a map entry points to, the model
  writes the new range back at the same key.
\<close>

record typedValueSemiRange =
  val :: TypedValue
  inclusive :: bool

record typedValueRange =
  lRange :: "typedValueSemiRange option"
  hRange :: "typedValueSemiRange option"

type_synonym ranges = "(uint32 \<times> typedValueRange) list"

text \<open>The map assignment \<open>m[k] = v\<close>.\<close>

fun assign :: "'k \<Rightarrow> 'v \<Rightarrow> ('k \<times> 'v) list \<Rightarrow> ('k \<times> 'v) list" where
  "assign k v [] = [(k, v)]"
| "assign k v ((k', v') # m) = (if k = k' then (k, v) # m else (k', v') # assign k v m)"

definition maxSemiRange ::
  "typedValueSemiRange \<Rightarrow> typedValueSemiRange \<Rightarrow> error + typedValueSemiRange" where
  "maxSemiRange or1 or2 =
     (case Compare (val or1) (val or2) of
        Inl e \<Rightarrow> Inl e
      | Inr r \<Rightarrow> Inr \<lparr>val = (if r < 0 then val or2 else val or1),
                      inclusive = (inclusive or1 \<and> inclusive or2)\<rparr>)"

definition minSemiRange ::
  "typedValueSemiRange \<Rightarrow> typedValueSemiRange \<Rightarrow> error + typedValueSemiRange" where
  "minSemiRange or1 or2 =
     (case Compare (val or1) (val or2) of
        Inl e \<Rightarrow> Inl e
      | Inr r \<Rightarrow> Inr \<lparr>val = (if r > 0 then val or2 else val or1),
                      inclusive = (inclusive or1 \<or> inclusive or2)\<rparr>)"

text \<open>\<open>r.refineWith(refiningRange)\<close>: the result is the receiver after the call.\<close>

definition refineWith :: "typedValueRange \<Rightarrow> typedValueRange \<Rightarrow> error + typedValueRange" where
  "refineWith r refiningRange =
     (case
        (case lRange r of
           None \<Rightarrow> Inr (lRange refiningRange)
         | Some rl \<Rightarrow>
             (case lRange refiningRange of
                None \<Rightarrow> Inr (Some rl)
              | Some fl \<Rightarrow> (case maxSemiRange rl fl of Inl e \<Rightarrow> Inl e | Inr m \<Rightarrow> Inr (Some m))))
      of
        Inl e \<Rightarrow> Inl e
      | Inr l' \<Rightarrow>
          (case
             (case hRange r of
                None \<Rightarrow> Inr (hRange refiningRange)
              | Some rh \<Rightarrow>
                  (case hRange refiningRange of
                     None \<Rightarrow> Inr (Some rh)
                   | Some fh \<Rightarrow> (case minSemiRange rh fh of Inl e \<Rightarrow> Inl e | Inr m \<Rightarrow> Inr (Some m))))
           of
             Inl e \<Rightarrow> Inl e
           | Inr h' \<Rightarrow> Inr \<lparr>lRange = l', hRange = h'\<rparr>))"

text \<open>\<open>r.extendWith(extendingRange)\<close>: the result is the receiver after the call.\<close>

definition extendWith :: "typedValueRange \<Rightarrow> typedValueRange \<Rightarrow> error + typedValueRange" where
  "extendWith r extendingRange =
     (case
        (case (lRange r, lRange extendingRange) of
           (Some rl, Some el) \<Rightarrow>
             (case minSemiRange rl el of Inl e \<Rightarrow> Inl e | Inr m \<Rightarrow> Inr (Some m))
         | _ \<Rightarrow> Inr None)
      of
        Inl e \<Rightarrow> Inl e
      | Inr l' \<Rightarrow>
          (case
             (case (hRange r, hRange extendingRange) of
                (Some rh, Some eh) \<Rightarrow>
                  (case maxSemiRange rh eh of Inl e \<Rightarrow> Inl e | Inr m \<Rightarrow> Inr (Some m))
              | _ \<Rightarrow> Inr None)
           of
             Inl e \<Rightarrow> Inl e
           | Inr h' \<Rightarrow> Inr \<lparr>lRange = l', hRange = h'\<rparr>))"

definition updateRangeFor ::
  "uint32 \<Rightarrow> TypedValue \<Rightarrow> CmpOperator \<Rightarrow> ranges \<Rightarrow> error + ranges" where
  "updateRangeFor colID v cmp rangesByColID =
     (if cmp = NE then Inr rangesByColID
      else
        let newRange =
          (case cmp of
             EQ \<Rightarrow> \<lparr>lRange = Some \<lparr>val = v, inclusive = True\<rparr>,
                     hRange = Some \<lparr>val = v, inclusive = True\<rparr>\<rparr>
           | LT \<Rightarrow> \<lparr>lRange = None, hRange = Some \<lparr>val = v, inclusive = False\<rparr>\<rparr>
           | LE \<Rightarrow> \<lparr>lRange = None, hRange = Some \<lparr>val = v, inclusive = True\<rparr>\<rparr>
           | GT \<Rightarrow> \<lparr>lRange = Some \<lparr>val = v, inclusive = False\<rparr>, hRange = None\<rparr>
           | GE \<Rightarrow> \<lparr>lRange = Some \<lparr>val = v, inclusive = True\<rparr>, hRange = None\<rparr>
           | NE \<Rightarrow> \<lparr>lRange = None, hRange = None\<rparr>)
        in (case map_of rangesByColID colID of
              None \<Rightarrow> Inr (assign colID newRange rangesByColID)
            | Some currRange \<Rightarrow>
                (case refineWith currRange newRange of
                   Inl e \<Rightarrow> Inl e
                 | Inr r' \<Rightarrow> Inr (assign colID r' rangesByColID))))"

text \<open>The type assertion \<open>bexp.left.(*ColSelector)\<close>.\<close>

fun isColSelector :: "ValueExp \<Rightarrow> bool" where
  "isColSelector (Sel (ColSelector db table col as)) = True"
| "isColSelector _ = False"

text \<open>
  The closure \<open>matchingFunc\<close> of \<open>CmpBoolExp.selectorRanges\<close>: it is given two operands but
  tests the receiver's own \<open>left\<close> and \<open>right\<close> (the first two arguments here), and returns
  the selector together with its second parameter.
\<close>

definition matchingFunc ::
  "ValueExp \<Rightarrow> ValueExp \<Rightarrow> ValueExp \<Rightarrow> ValueExp \<Rightarrow> (Selector \<times> ValueExp) option" where
  "matchingFunc bexp_left bexp_right left right =
     (case bexp_left of
        Sel (ColSelector db table col as) \<Rightarrow>
          (if isConstant bexp_right then Some (ColSelector db table col as, right) else None)
      | _ \<Rightarrow> None)"

text \<open>The loop of the \<open>OR\<close> branch over \<open>lRanges\<close> (Go visits the map in an unspecified order;
  the iterations touch different keys and can only fail with the one error of \<open>Compare\<close>, so
  the order does not show in the result).\<close>

fun extendLoop :: "ranges \<Rightarrow> ranges \<Rightarrow> ranges \<Rightarrow> error + ranges" where
  "extendLoop [] rRanges rangesByColID = Inr rangesByColID"
| "extendLoop ((colID, lr) # rest) rRanges rangesByColID =
     (case map_of rRanges colID of
        None \<Rightarrow> extendLoop rest rRanges rangesByColID
      | Some rr \<Rightarrow>
          (case extendWith lr rr of
             Inl e \<Rightarrow> Inl e
           | Inr lr' \<Rightarrow> extendLoop rest rRanges (assign colID lr' rangesByColID)))"

text \<open>\<open>selectorRanges(table, asTable, params, rangesByColID)\<close>: the result is the map after the
  call, or the error.\<close>

fun selectorRanges ::
  "Ext \<Rightarrow> ValueExp \<Rightarrow> Table \<Rightarrow> string \<Rightarrow> (string \<Rightarrow> GoValue option) \<Rightarrow> ranges \<Rightarrow> error + ranges" where
  "selectorRanges ext (CmpBoolExp op l r) table asTable params rangesByColID =
     (case (case matchingFunc l r l r of
              Some m \<Rightarrow> Some m
            | None \<Rightarrow> matchingFunc l r r l) of
        None \<Rightarrow> Inr rangesByColID
      | Some (sel, c) \<Rightarrow>
          (case resolve sel (tbl_db_name table) (tbl_name table) of
             (aggFn, db, t, col) \<Rightarrow>
               if aggFn \<noteq> [] \<or> db \<noteq> tbl_db_name table \<or> t \<noteq> asTable then Inr rangesByColID
               else
                 (case GetColumnByName table col of
                    Inl e \<Rightarrow> Inl e
                  | Inr column \<Rightarrow>
                      (case substitute c params of
                         Inl e \<Rightarrow> (if e = ErrMissingParameter then Inr rangesByColID else Inl e)
                       | Inr v \<Rightarrow>
                           (case reduce ext v None (tbl_db_name table) (tbl_name table) of
                              Inl e \<Rightarrow> Inl e
                            | Inr rval \<Rightarrow> updateRangeFor (col_id column) rval op rangesByColID)))))"
| "selectorRanges ext (BinBoolExp op l r) table asTable params rangesByColID =
     (if op = AND then
        (case selectorRanges ext l table asTable params rangesByColID of
           Inl e \<Rightarrow> Inl e
         | Inr rs \<Rightarrow> selectorRanges ext r table asTable params rs)
      else
        (case selectorRanges ext l table asTable params [] of
           Inl e \<Rightarrow> Inl e
         | Inr lRanges \<Rightarrow>
             (case selectorRanges ext r table asTable params [] of
                Inl e \<Rightarrow> Inl e
              | Inr rRanges \<Rightarrow> extendLoop lRanges rRanges rangesByColID)))"
| "selectorRanges ext (TV v) table asTable params rangesByColID = Inr rangesByColID"
| "selectorRanges ext (SysFn f) table asTable params rangesByColID = Inr rangesByColID"
| "selectorRanges ext (Param pid pos) table asTable params rangesByColID = Inr rangesByColID"
| "selectorRanges ext (Sel s) table asTable params rangesByColID = Inr rangesByColID"
| "selectorRanges ext (NumExp op l r) table asTable params rangesByColID = Inr rangesByColID"
| "selectorRanges ext (NotBoolExp e) table asTable params rangesByColID = Inr rangesByColID"
| "selectorRanges ext (LikeBoolExp s p) table asTable params rangesByColID = Inr rangesByColID"
| "selectorRanges ext ExistsBoolExp table asTable params rangesByColID = Inr rangesByColID"

subsection \<open>The conditional row reader\<close>

text \<open>
  Modelled from the spec: the conditional reader is defined outside the modelled files. Every reader
  implements \<open>Read \<rightarrow> row | EndOfRows | error\<close> (\<open>NoMoreRows\<close> is the normal termination
  signal); the conditional reader evaluates the \<open>WHERE\<close> / \<open>HAVING\<close> condition per row (with
  \<open>reduce\<close>) and skips the row on false/null. An evaluation error is surfaced to the caller, and
  so is a condition that evaluates to a non-boolean, non-null value (\<open>InvalidCondition\<close>). The
  upstream reader is the list of the rows it still has to deliver; \<open>conditionalRead\<close> is one
  call of \<open>Read\<close> and returns its outcome with the upstream that is left.
\<close>

fun conditionalRead ::
  "Ext \<Rightarrow> ValueExp \<Rightarrow> string \<Rightarrow> string \<Rightarrow> Row list \<Rightarrow> (error + Row) \<times> Row list" where
  "conditionalRead ext cond implicitDB implicitTable [] = (Inl ErrNoMoreRows, [])"
| "conditionalRead ext cond implicitDB implicitTable (row # rows) =
     (case reduce ext cond (Some row) implicitDB implicitTable of
        Inl e \<Rightarrow> (Inl e, rows)
      | Inr (Bool b) \<Rightarrow>
          (if b then (Inr row, rows)
           else conditionalRead ext cond implicitDB implicitTable rows)
      | Inr (NullValue t) \<Rightarrow> conditionalRead ext cond implicitDB implicitTable rows
      | Inr _ \<Rightarrow> (Inl ErrInvalidCondition, rows))"

subsection \<open>The lexer\<close>

text \<open>
  The tokens \<open>Lex\<close> returns: the named token constants of the generated parser, and
  \<open>int(ch)\<close> for any other byte (\<open>Lit\<close>; the end of input is \<open>0\<close>, that is \<open>Lit 0\<close>).
  \<open>TYPE_tok\<close> is the token \<open>TYPE\<close>.
\<close>

datatype Token =
    Lit nat | ERROR | STMT_SEPARATOR | TYPE_tok | ID
  | CREATE | USE | DATABASE | TABLE | INDEX | ON | ALTER | ADD | COLUMN

definition reservedWords :: "string \<Rightarrow> Token option" where
  "reservedWords = map_of
     [(''CREATE'', CREATE), (''USE'', USE), (''DATABASE'', DATABASE), (''TABLE'', TABLE),
      (''INDEX'', INDEX), (''ON'', ON), (''ALTER'', ALTER), (''ADD'', ADD), (''COLUMN'', COLUMN)]"

definition types :: "string list" where
  "types = [''INTEGER'', ''BOOLEAN'', ''STRING'', ''BLOB'', ''TIMESTAMP'']"

definition isType :: "string \<Rightarrow> bool" where
  "isType w = (w \<in> set types)"

definition isSeparator :: "char \<Rightarrow> bool" where
  "isSeparator ch = (CHR '';'' = ch \<or> CHR 0x0D = ch \<or> CHR 0x0A = ch)"

definition isSpace :: "char \<Rightarrow> bool" where
  "isSpace ch = (CHR '' '' = ch)"

definition isNumber :: "char \<Rightarrow> bool" where
  "isNumber ch = ((of_char (CHR ''0'') :: nat) \<le> of_char ch \<and> (of_char ch :: nat) \<le> of_char (CHR ''9''))"

definition isLetter :: "char \<Rightarrow> bool" where
  "isLetter ch =
     ((of_char (CHR ''a'') :: nat) \<le> of_char ch \<and> (of_char ch :: nat) \<le> of_char (CHR ''z'')
      \<or> (of_char (CHR ''A'') :: nat) \<le> of_char ch \<and> (of_char ch :: nat) \<le> of_char (CHR ''Z'')
      \<or> ch = CHR ''_'')"

text \<open>
  \<open>aheadByteReader\<close>: the byte read ahead with its error, and the underlying
  \<open>io.ByteReader\<close>, here the bytes it has yet to deliver (\<open>r_rest\<close>) and the error it answers
  once they are used up (\<open>r_err\<close>; \<open>io.EOF\<close> for the readers of \<open>ParseString\<close> and
  \<open>ParseBytes\<close>), together with the zero byte.
\<close>

record aheadByteReader =
  nextChar :: char
  nextErr :: "error option"
  r_rest :: "char list"
  r_err :: error

definition r_ReadByte :: "aheadByteReader \<Rightarrow> aheadByteReader" where
  "r_ReadByte ar =
     (case r_rest ar of
        [] \<Rightarrow> ar\<lparr>nextChar := CHR 0x00, nextErr := Some (r_err ar)\<rparr>
      | c # cs \<Rightarrow> ar\<lparr>nextChar := c, nextErr := None, r_rest := cs\<rparr>)"

definition newAheadByteReader :: "char list \<Rightarrow> error \<Rightarrow> aheadByteReader" where
  "newAheadByteReader bytes e =
     r_ReadByte \<lparr>nextChar = CHR 0x00, nextErr = None, r_rest = bytes, r_err = e\<rparr>"

definition ReadByte :: "aheadByteReader \<Rightarrow> (char \<times> error option) \<times> aheadByteReader" where
  "ReadByte ar = ((nextChar ar, nextErr ar), if nextErr ar = None then r_ReadByte ar else ar)"

definition NextByte :: "aheadByteReader \<Rightarrow> char \<times> error option" where
  "NextByte ar = (nextChar ar, nextErr ar)"

text \<open>The progress measure of both loops: the bytes not yet handed out.\<close>

definition pending :: "aheadByteReader \<Rightarrow> nat" where
  "pending ar = length (r_rest ar) + (if nextErr ar = None then 1 else 0)"

text \<open>\<open>readWord\<close>, with the buffer \<open>b\<close> as an accumulator.\<close>

function readWord :: "aheadByteReader \<Rightarrow> char list \<Rightarrow> (error + char list) \<times> aheadByteReader" where
  "readWord ar b =
     (if nextErr ar = Some EOF then (Inr b, ar)
      else if nextErr ar \<noteq> None then (Inl (the (nextErr ar)), ar)
      else if \<not> isLetter (nextChar ar) \<and> \<not> isNumber (nextChar ar) then (Inr b, ar)
      else readWord (snd (ReadByte ar)) (b @ [fst (fst (ReadByte ar))]))"
  by pat_completeness auto
termination
  by (relation "measure (\<lambda>(ar, b). pending ar)")
    (auto simp: pending_def ReadByte_def r_ReadByte_def split: list.splits)

text \<open>The first loop of \<open>Lex\<close>: it returns a token at the end of input or on a read error (with
  the value for \<open>lval.err\<close>), or leaves the loop with the first byte that is not a space.\<close>

function skipSpaces :: "aheadByteReader \<Rightarrow> (Token \<times> error option + char) \<times> aheadByteReader" where
  "skipSpaces ar =
     (if nextErr ar = Some EOF then (Inl (Lit 0, None), snd (ReadByte ar))
      else if nextErr ar \<noteq> None then (Inl (ERROR, nextErr ar), snd (ReadByte ar))
      else if \<not> isSpace (nextChar ar) then (Inr (nextChar ar), snd (ReadByte ar))
      else skipSpaces (snd (ReadByte ar)))"
  by pat_completeness auto
termination
  by (relation "measure pending")
    (auto simp: pending_def ReadByte_def r_ReadByte_def split: list.splits)

declare readWord.simps [simp del] skipSpaces.simps [simp del]

record yySymType =
  sym_id :: string
  sym_err :: "error option"

definition Lex :: "aheadByteReader \<Rightarrow> yySymType \<Rightarrow> Token \<times> yySymType \<times> aheadByteReader" where
  "Lex ar lval =
     (case skipSpaces ar of
        (Inl (tok, e), ar') \<Rightarrow> (tok, (if e = None then lval else lval\<lparr>sym_err := e\<rparr>), ar')
      | (Inr ch, ar') \<Rightarrow>
          if isSeparator ch then
            (STMT_SEPARATOR, lval,
             if ch = CHR 0x0D \<and> nextChar ar' = CHR 0x0A then snd (ReadByte ar') else ar')
          else if isLetter ch then
            (case readWord ar' [] of
               (Inl e, ar'') \<Rightarrow> (ERROR, lval\<lparr>sym_err := Some e\<rparr>, ar'')
             | (Inr tail, ar'') \<Rightarrow>
                 if isType (ch # tail) then (TYPE_tok, lval\<lparr>sym_id := ch # tail\<rparr>, ar'')
                 else (case reservedWords (ch # tail) of
                         None \<Rightarrow> (ID, lval\<lparr>sym_id := ch # tail\<rparr>, ar'')
                       | Some tkn \<Rightarrow> (tkn, lval\<lparr>sym_id := ch # tail\<rparr>, ar'')))
          else (Lit (of_char ch), lval, ar'))"

subsection \<open>Statements\<close>

text \<open>
  \<open>store.KV\<close> with its optional constraint: the code attaches \<open>nil\<close>, \<open>store.MustExist\<close> or
  \<open>deletedOrMustNotExist\<close>.
\<close>

datatype KVConstraint = MustExist | DeletedOrMustNotExist

record KV =
  kv_Key :: "byte list"
  kv_Value :: "byte list"
  kv_Constraint :: "KVConstraint option"

record Database =
  db_id :: uint32
  db_name :: string
  db_tables :: "Table list"

text \<open>Modelled from the spec: \<open>Database.GetTableByName\<close> is defined with the catalog, outside the modelled files; a
  database contains its tables by name, and an unknown name is the schema error
  \<open>TableDoesNotExist\<close>.\<close>

definition GetTableByName :: "Database \<Rightarrow> string \<Rightarrow> error + Table" where
  "GetTableByName db n =
     (case find (\<lambda>t. tbl_name t = n) (db_tables db) of
        None \<Rightarrow> Inl ErrTableDoesNotExist
      | Some t \<Rightarrow> Inr t)"

text \<open>\<open>TxSummary\<close>; \<open>db\<close> is a pointer to the selected database (nil when none is), held here by
  the value it has when the summary is made; \<open>lastInsertedPKs\<close> is a map, here an association
  list with one entry per key.\<close>

record TxSummary =
  sum_db :: "Database option"
  ces :: "KV list"
  des :: "KV list"
  updatedRows :: int
  lastInsertedPKs :: "(string \<times> int64) list"

definition newTxSummary :: "Database option \<Rightarrow> TxSummary" where
  "newTxSummary db = \<lparr>sum_db = db, ces = [], des = [], updatedRows = 0, lastInsertedPKs = []\<rparr>"

record tableRef =
  tr_db :: string
  tr_table :: string
  tr_asBefore :: nat
  tr_as :: string

record OrdCol =
  ord_sel :: Selector
  descOrder :: bool

text \<open>The column name of a selector (\<open>sel.col\<close>).\<close>

fun sel_col :: "Selector \<Rightarrow> string" where
  "sel_col (ColSelector db table col as) = col"
| "sel_col (AggColSelector aggFn db table col as) = col"

text \<open>
  \<open>SelectStmt\<close> and \<open>DataSource\<close> (a table reference or a nested select). A nil expression
  is \<open>None\<close>. The slice \<open>groupBy\<close> is compared with nil by the code, so it is an option:
  \<open>None\<close> is the nil slice and \<open>Some []\<close> an empty slice that is not nil. Of the other slices
  only the length and the elements are read, and a nil one is \<open>[]\<close>. The selectors of
  \<open>GROUP BY\<close> and \<open>ORDER BY\<close> are \<open>*ColSelector\<close> in the source.
\<close>

datatype JoinType = InnerJoin | LeftJoin | RightJoin

datatype SelectStmt = SelectStmt
    (stmt_distinct : bool)
    (stmt_selectors : "Selector list")
    (stmt_ds : DataSource)
    (stmt_indexOn : "string list")
    (stmt_joins : "JoinSpec list")
    (stmt_where : "ValueExp option")
    (stmt_groupBy : "Selector list option")
    (stmt_having : "ValueExp option")
    (stmt_limit : int)
    (stmt_orderBy : "OrdCol list")
    (stmt_as : string)
and DataSource = TableRefDS tableRef | SelectDS SelectStmt
and JoinSpec = JoinSpec JoinType DataSource ValueExp "string list"

text \<open>
  What the statements take from the engine and the rest of the package, all of it defined
  outside the modelled files: the catalog's \<open>GetDatabaseByName\<close>, the key mapping \<open>e.mapKey\<close>, the encoders
  \<open>EncodeID\<close>, \<open>EncodeAsKey\<close> (with the slice it returns next to an error, which one caller
  uses) and \<open>EncodeValue\<close>, \<open>Column.MaxLen\<close>, the constant \<open>maxKeyLen\<close>, the outcome of
  \<open>WaitForIndexingUpto\<close>, and the first \<open>Read\<close> of a raw row reader opened on a table with
  a given alias and the ranges of a scan on the primary index.
\<close>

record Engine =
  eng_ext :: Ext
  GetDatabaseByName :: "string \<Rightarrow> error + Database"
  mapKey :: "string \<Rightarrow> byte list list \<Rightarrow> byte list"
  EncodeID :: "uint32 \<Rightarrow> byte list"
  EncodeAsKey :: "GoValue \<Rightarrow> SQLValueType \<Rightarrow> int \<Rightarrow> byte list \<times> error option"
  EncodeValue :: "GoValue \<Rightarrow> SQLValueType \<Rightarrow> int \<Rightarrow> error + byte list"
  MaxLen :: "Column \<Rightarrow> int"
  maxKeyLen :: nat
  WaitForIndexingUpto :: "error option"
  rawRead :: "Table \<Rightarrow> string \<Rightarrow> ranges \<Rightarrow> error + Row"

definition referencedTable :: "Engine \<Rightarrow> tableRef \<Rightarrow> Database option \<Rightarrow> error + Table" where
  "referencedTable e stmt implicitDB =
     (case (if tr_db stmt \<noteq> [] then
              (case GetDatabaseByName e (tr_db stmt) of Inl err \<Rightarrow> Inl err | Inr rdb \<Rightarrow> Inr (Some rdb))
            else Inr None) of
        Inl err \<Rightarrow> Inl err
      | Inr db \<Rightarrow>
          (case (case db of
                   None \<Rightarrow> (case implicitDB of None \<Rightarrow> Inl ErrNoDatabaseSelected | Some d \<Rightarrow> Inr d)
                 | Some d \<Rightarrow> Inr d) of
             Inl err \<Rightarrow> Inl err
           | Inr d \<Rightarrow> GetTableByName d (tr_table stmt)))"

text \<open>\<open>len\<close> of a slice that may be nil.\<close>

definition slice_len :: "'a list option \<Rightarrow> nat" where
  "slice_len s = (case s of None \<Rightarrow> 0 | Some xs \<Rightarrow> length xs)"

text \<open>\<open>SelectStmt.compileUsing\<close>.\<close>

definition SelectStmt_compileUsing ::
  "Engine \<Rightarrow> SelectStmt \<Rightarrow> Database option \<Rightarrow> error + TxSummary" where
  "SelectStmt_compileUsing e stmt implicitDB =
     (if implicitDB = None then Inl ErrNoDatabaseSelected
      else if stmt_groupBy stmt = None \<and> stmt_having stmt \<noteq> None then Inl ErrHavingClauseRequiresGroupClause
      else if slice_len (stmt_groupBy stmt) > 1 then Inl ErrLimitedGroupBy
      else if length (stmt_orderBy stmt) > 1 then Inl ErrLimitedOrderBy
      else if length (stmt_orderBy stmt) > 0 then
        (case stmt_ds stmt of
           SelectDS sub \<Rightarrow> Inl ErrLimitedOrderBy
         | TableRefDS tableRef \<Rightarrow>
             (case referencedTable e tableRef implicitDB of
                Inl err \<Rightarrow> Inl err
              | Inr table \<Rightarrow>
                  (case GetColumnByName table (sel_col (ord_sel (stmt_orderBy stmt ! 0))) of
                     Inl err \<Rightarrow> Inl err
                   | Inr col \<Rightarrow>
                       (case indexesByColID table (col_id col) of
                          None \<Rightarrow> Inl ErrLimitedOrderBy
                        | Some idxs \<Rightarrow> Inr (newTxSummary implicitDB)))))
      else Inr (newTxSummary implicitDB))"

subsection \<open>\<open>UPSERT\<close> / \<open>INSERT\<close>\<close>

text \<open>\<open>binary.BigEndian.PutUint32\<close> and \<open>PutUint64\<close>: the bytes written, most significant
  first.\<close>

definition be32 :: "uint32 \<Rightarrow> byte list" where
  "be32 w = [ucast (drop_bit 24 w), ucast (drop_bit 16 w), ucast (drop_bit 8 w), ucast w]"

definition be64 :: "int64 \<Rightarrow> byte list" where
  "be64 w = [ucast (drop_bit 56 w), ucast (drop_bit 48 w), ucast (drop_bit 40 w),
             ucast (drop_bit 32 w), ucast (drop_bit 24 w), ucast (drop_bit 16 w),
             ucast (drop_bit 8 w), ucast w]"

record UpsertIntoStmt =
  isInsert :: bool
  ups_tableRef :: tableRef
  ups_cols :: "string list"
  ups_rows :: "ValueExp list list"

definition PKIndexID :: uint32 where "PKIndexID = 0"
definition PIndexPrefix :: string where "PIndexPrefix = ''P.''"
definition SIndexPrefix :: string where "SIndexPrefix = ''S.''"
definition UIndexPrefix :: string where "UIndexPrefix = ''U.''"

text \<open>Modelled from the spec: \<open>Index.IsPrimary\<close> and \<open>Index.IsUnique\<close> are defined with the
  catalog, outside the modelled files; index id 0 is reserved for the primary index, and \<open>unique\<close> is an attribute of
  the index.\<close>

definition IsPrimary :: "Index \<Rightarrow> bool" where
  "IsPrimary index = (idx_id index = PKIndexID)"

definition IsUnique :: "Index \<Rightarrow> bool" where
  "IsUnique index = idx_unique index"

text \<open>
  \<open>table.indexes\<close> is a Go map, and Go visits a map in an unspecified order that may differ
  from one \<open>range\<close> loop to the next over the same map. Each loop over \<open>table.indexes\<close>
  therefore takes a rank of the indexes and visits them by increasing rank (indexes of equal
  rank in the order of the list): whatever the rank, the visit is a permutation of the indexes,
  and every order of distinct indexes is the visit of some rank. The two loops of one row take
  their ranks separately.
\<close>

type_synonym visit = "Index \<Rightarrow> nat"

definition rangeOver :: "visit \<Rightarrow> Index list \<Rightarrow> Index list" where
  "rangeOver rank idxs = sort_key rank idxs"

text \<open>\<open>validate\<close>: the loop over \<open>stmt.cols\<close> with its position \<open>i\<close>.\<close>

fun validateLoop ::
  "Table \<Rightarrow> string list \<Rightarrow> nat \<Rightarrow> (uint32 \<times> nat) list \<Rightarrow> error + (uint32 \<times> nat) list" where
  "validateLoop table [] i selPosByColID = Inr selPosByColID"
| "validateLoop table (c # cs) i selPosByColID =
     (case GetColumnByName table c of
        Inl err \<Rightarrow> Inl err
      | Inr col \<Rightarrow>
          (case map_of selPosByColID (col_id col) of
             Some p \<Rightarrow> Inl ErrDuplicatedColumn
           | None \<Rightarrow> validateLoop table cs (i + 1) (assign (col_id col) i selPosByColID)))"

definition validate :: "UpsertIntoStmt \<Rightarrow> Table \<Rightarrow> error + (uint32 \<times> nat) list" where
  "validate stmt table = validateLoop table (ups_cols stmt) 0 []"

text \<open>
  The loop over \<open>table.colsByID\<close> that fills \<open>valuesByColID\<close> for one row. Go visits the map
  in an unspecified order; the model visits the columns in the order of the list it is given
  (\<open>compileRow\<close> passes \<open>table.cols\<close>). The order does not show in the values collected, only
  in which error surfaces when more than one column fails.
\<close>

fun valuesLoop ::
  "Engine \<Rightarrow> UpsertIntoStmt \<Rightarrow> (string \<Rightarrow> GoValue option) \<Rightarrow> Database \<Rightarrow> Table \<Rightarrow>
   (uint32 \<times> nat) list \<Rightarrow> ValueExp list \<Rightarrow> Column list \<Rightarrow> (uint32 \<times> TypedValue) list \<Rightarrow>
   error + (uint32 \<times> TypedValue) list" where
  "valuesLoop e stmt params implicitDB table selPosByColID row [] valuesByColID = Inr valuesByColID"
| "valuesLoop e stmt params implicitDB table selPosByColID row (col # rest) valuesByColID =
     (case map_of selPosByColID (col_id col) of
        None \<Rightarrow>
          (if notNull col then Inl ErrNotNullableColumnCannotBeNull
           else valuesLoop e stmt params implicitDB table selPosByColID row rest valuesByColID)
      | Some colPos \<Rightarrow>
          (if isInsert stmt \<and> autoIncrement col then Inl ErrNoValueForAutoIncrementalColumn
           else
             (case substitute (row ! colPos) params of
                Inl err \<Rightarrow> Inl err
              | Inr v \<Rightarrow>
                  (case reduce (eng_ext e) v None (db_name implicitDB) (tbl_name table) of
                     Inl err \<Rightarrow> Inl err
                   | Inr rval \<Rightarrow>
                       (if isNull rval then
                          (if notNull col then Inl ErrNotNullableColumnCannotBeNull
                           else valuesLoop e stmt params implicitDB table selPosByColID row rest valuesByColID)
                        else valuesLoop e stmt params implicitDB table selPosByColID row rest
                               (assign (col_id col) rval valuesByColID))))))"

text \<open>The loop over the primary index columns that builds \<open>pkEncVals\<close>.\<close>

fun encodePK ::
  "Engine \<Rightarrow> (uint32 \<times> TypedValue) list \<Rightarrow> Column list \<Rightarrow> byte list \<Rightarrow> error + byte list" where
  "encodePK e valuesByColID [] valbuf = Inr valbuf"
| "encodePK e valuesByColID (col # rest) valbuf =
     (case map_of valuesByColID (col_id col) of
        None \<Rightarrow> Inl ErrPKCanNotBeNull
      | Some rval \<Rightarrow>
          (case EncodeAsKey e (Value rval) (colType col) (MaxLen e col) of
             (encVal, Some err) \<Rightarrow> Inl (Wrapped err)
           | (encVal, None) \<Rightarrow>
               (if length encVal > maxKeyLen e then Inl ErrMaxKeyLengthExceeded
                else encodePK e valuesByColID rest (valbuf @ encVal))))"

text \<open>
  \<open>fetchPKRow\<close>: the ranges pin every primary key column to its new value (present for each
  of them where this is called, after \<open>encodePK\<close>); the raw reader is opened on the table under
  its own name and read once.
\<close>

fun pkRangesLoop :: "(uint32 \<times> TypedValue) list \<Rightarrow> Column list \<Rightarrow> ranges \<Rightarrow> ranges" where
  "pkRangesLoop valuesByColID [] pkRanges = pkRanges"
| "pkRangesLoop valuesByColID (pkCol # rest) pkRanges =
     (case map_of valuesByColID (col_id pkCol) of
        None \<Rightarrow> pkRangesLoop valuesByColID rest pkRanges
      | Some pkVal \<Rightarrow>
          pkRangesLoop valuesByColID rest
            (assign (col_id pkCol)
               \<lparr>lRange = Some \<lparr>val = pkVal, inclusive = True\<rparr>,
                hRange = Some \<lparr>val = pkVal, inclusive = True\<rparr>\<rparr> pkRanges))"

definition fetchPKRow :: "Engine \<Rightarrow> Table \<Rightarrow> (uint32 \<times> TypedValue) list \<Rightarrow> error + Row" where
  "fetchPKRow e table valuesByColID =
     (case WaitForIndexingUpto e of
        Some err \<Rightarrow> Inl err
      | None \<Rightarrow>
          rawRead e table (tbl_name table)
            (pkRangesLoop valuesByColID (idx_cols (primaryIndex table)) []))"

text \<open>
  \<open>currValuesByColID\<close>: every column of the table is entered with what the fetched row holds
  under the column's selector, which is the nil interface (\<open>None\<close>) when the row has no such
  entry.
\<close>

definition currValues :: "Table \<Rightarrow> Row \<Rightarrow> (uint32 \<times> TypedValue option) list" where
  "currValues table currPKRow =
     foldl (\<lambda>m col. assign (col_id col)
                (Values currPKRow (EncodeSelector [] (tbl_db_name table) (tbl_name table) (colName col))) m)
       [] (tbl_cols table)"

text \<open>
  \<open>deleteIndexEntriesFor\<close>. The inner loop over the columns of one index compares the current
  with the new value and encodes the current one, ignoring the encoder's error; it carries
  \<open>sameIndexKey\<close> and the encoded values. A method call on the nil interface panics. The outer
  loop visits \<open>table.indexes\<close> in the order of the rank it is given.
\<close>

fun sameKeyLoop ::
  "Engine \<Rightarrow> (uint32 \<times> TypedValue option) list \<Rightarrow> (uint32 \<times> TypedValue) list \<Rightarrow> Column list \<Rightarrow>
   bool \<Rightarrow> byte list list \<Rightarrow> error + bool \<times> byte list list" where
  "sameKeyLoop e currValuesByColID newValuesByColID [] sameIndexKey encs = Inr (sameIndexKey, encs)"
| "sameKeyLoop e currValuesByColID newValuesByColID (col # rest) sameIndexKey encs =
     (case (case map_of currValuesByColID (col_id col) of
              None \<Rightarrow> Some (NullValue (colType col))
            | Some cv \<Rightarrow> cv) of
        None \<Rightarrow> Inl RuntimePanic
      | Some currVal \<Rightarrow>
          (case Compare currVal
                  (case map_of newValuesByColID (col_id col) of
                     None \<Rightarrow> NullValue (colType col)
                   | Some nv \<Rightarrow> nv) of
             Inl err \<Rightarrow> Inl err
           | Inr r \<Rightarrow>
               sameKeyLoop e currValuesByColID newValuesByColID rest (sameIndexKey \<and> r = 0)
                 (encs @ [fst (EncodeAsKey e (Value currVal) (colType col) (MaxLen e col))])))"

fun deleteIndexEntriesLoop ::
  "Engine \<Rightarrow> byte list \<Rightarrow> (uint32 \<times> TypedValue option) list \<Rightarrow> (uint32 \<times> TypedValue) list \<Rightarrow>
   Table \<Rightarrow> Index list \<Rightarrow> uint32 list \<Rightarrow> KV list \<Rightarrow> error + uint32 list \<times> KV list" where
  "deleteIndexEntriesLoop e pkEncVals currValuesByColID newValuesByColID table [] reusable ds =
     Inr (reusable, ds)"
| "deleteIndexEntriesLoop e pkEncVals currValuesByColID newValuesByColID table (index # rest) reusable ds =
     (if IsPrimary index then
        deleteIndexEntriesLoop e pkEncVals currValuesByColID newValuesByColID table rest reusable ds
      else
        (case sameKeyLoop e currValuesByColID newValuesByColID (idx_cols index) True
                [EncodeID e (tbl_db_id table), EncodeID e (tbl_id table), EncodeID e (idx_id index)] of
           Inl err \<Rightarrow> Inl err
         | Inr (sameIndexKey, encs) \<Rightarrow>
             if sameIndexKey then
               deleteIndexEntriesLoop e pkEncVals currValuesByColID newValuesByColID table rest
                 (reusable @ [idx_id index]) ds
             else
               deleteIndexEntriesLoop e pkEncVals currValuesByColID newValuesByColID table rest reusable
                 (ds @ [\<lparr>kv_Key = (if IsUnique index then mapKey e UIndexPrefix encs
                                      else mapKey e SIndexPrefix (encs @ [pkEncVals])),
                          kv_Value = (if IsUnique index then 1 # pkEncVals else [1]),
                          kv_Constraint = None\<rparr>])))"

definition deleteIndexEntriesFor ::
  "Engine \<Rightarrow> visit \<Rightarrow> byte list \<Rightarrow> (uint32 \<times> TypedValue option) list \<Rightarrow>
   (uint32 \<times> TypedValue) list \<Rightarrow> Table \<Rightarrow> KV list \<Rightarrow> error + uint32 list \<times> KV list" where
  "deleteIndexEntriesFor e rank pkEncVals currValuesByColID newValuesByColID table ds =
     deleteIndexEntriesLoop e pkEncVals currValuesByColID newValuesByColID table
       (rangeOver rank (indexes table)) [] ds"

text \<open>
  The row payload after its 4-byte count: for every column of the table, in declared order, that
  has a value, the 4-byte column id and the encoded value. (Modelled from the spec: the constants
  \<open>EncIDLen\<close> and \<open>EncLenLen\<close> are defined outside the modelled files; both are 4, so each buffer made
  for \<open>PutUint32\<close> is exactly the four bytes written.)
\<close>

fun payloadLoop ::
  "Engine \<Rightarrow> (uint32 \<times> TypedValue) list \<Rightarrow> Column list \<Rightarrow> byte list \<Rightarrow> error + byte list" where
  "payloadLoop e valuesByColID [] valbuf = Inr valbuf"
| "payloadLoop e valuesByColID (col # rest) valbuf =
     (case map_of valuesByColID (col_id col) of
        None \<Rightarrow> payloadLoop e valuesByColID rest valbuf
      | Some rval \<Rightarrow>
          (case EncodeValue e (Value rval) (colType col) (MaxLen e col) of
             Inl err \<Rightarrow> Inl (Wrapped err)
           | Inr encVal \<Rightarrow> payloadLoop e valuesByColID rest (valbuf @ be32 (col_id col) @ encVal)))"

text \<open>The key columns of one secondary entry: a missing value is the \<open>NULL\<close> of the column's
  type; here the encoder's error is returned.\<close>

fun encodeIndexCols ::
  "Engine \<Rightarrow> (uint32 \<times> TypedValue) list \<Rightarrow> Column list \<Rightarrow> byte list list \<Rightarrow> error + byte list list" where
  "encodeIndexCols e valuesByColID [] encs = Inr encs"
| "encodeIndexCols e valuesByColID (col # rest) encs =
     (case EncodeAsKey e
             (Value (case map_of valuesByColID (col_id col) of
                       None \<Rightarrow> NullValue (colType col)
                     | Some rval \<Rightarrow> rval))
             (colType col) (MaxLen e col) of
        (encVal, Some err) \<Rightarrow> Inl err
      | (encVal, None) \<Rightarrow>
          (if length encVal > maxKeyLen e then Inl ErrMaxKeyLengthExceeded
           else encodeIndexCols e valuesByColID rest (encs @ [encVal])))"

text \<open>The loop that creates the entries of the secondary indexes, over the indexes in the order
  of its visit of \<open>table.indexes\<close>. A nil \<open>reusableIndexEntries\<close> is the empty list.\<close>

fun secondaryLoop ::
  "Engine \<Rightarrow> byte list \<Rightarrow> (uint32 \<times> TypedValue) list \<Rightarrow> Table \<Rightarrow> uint32 list \<Rightarrow> Index list \<Rightarrow>
   KV list \<Rightarrow> error + KV list" where
  "secondaryLoop e pkEncVals valuesByColID table reusableIndexEntries [] ds = Inr ds"
| "secondaryLoop e pkEncVals valuesByColID table reusableIndexEntries (index # rest) ds =
     (if IsPrimary index then
        secondaryLoop e pkEncVals valuesByColID table reusableIndexEntries rest ds
      else if idx_id index \<in> set reusableIndexEntries then
        secondaryLoop e pkEncVals valuesByColID table reusableIndexEntries rest ds
      else
        (case encodeIndexCols e valuesByColID (idx_cols index)
                [EncodeID e (tbl_db_id table), EncodeID e (tbl_id table), EncodeID e (idx_id index)] of
           Inl err \<Rightarrow> Inl err
         | Inr encs \<Rightarrow>
             secondaryLoop e pkEncVals valuesByColID table reusableIndexEntries rest
               (ds @ [\<lparr>kv_Key = (if IsUnique index then mapKey e UIndexPrefix encs
                                    else mapKey e SIndexPrefix (encs @ [pkEncVals])),
                        kv_Value = (if IsUnique index then 0 # pkEncVals else [0]),
                        kv_Constraint = (if IsUnique index then Some DeletedOrMustNotExist else None)\<rparr>])))"

text \<open>The constraint of the primary entry: the two \<open>if\<close> statements on a nil variable.\<close>

definition pkConstraint :: "UpsertIntoStmt \<Rightarrow> Table \<Rightarrow> KVConstraint option" where
  "pkConstraint stmt table =
     (let c0 = None;
          c1 = (if isInsert stmt \<and> \<not> autoIncrementPK table then Some DeletedOrMustNotExist else c0);
          c2 = (if \<not> isInsert stmt \<and> autoIncrementPK table then Some MustExist else c1)
      in c2)"

text \<open>
  The body of the loop over \<open>stmt.rows\<close> from the encoding of the primary key on; the table
  and the summary are as the first part of the body has left them. \<open>visits\<close> holds the rank
  of the loop over \<open>table.indexes\<close> in \<open>deleteIndexEntriesFor\<close> and the rank of the loop
  over \<open>table.indexes\<close> that creates the entries of the secondary indexes.
\<close>

definition compileRowTail ::
  "Engine \<Rightarrow> UpsertIntoStmt \<Rightarrow> visit \<times> visit \<Rightarrow> Table \<Rightarrow> (uint32 \<times> TypedValue) list \<Rightarrow>
   TxSummary \<Rightarrow> error + TxSummary" where
  "compileRowTail e stmt visits table valuesByColID summary =
     (case encodePK e valuesByColID (idx_cols (primaryIndex table)) [] of
        Inl err \<Rightarrow> Inl err
      | Inr pkEncVals \<Rightarrow>
          (case (if \<not> isInsert stmt \<and> length (indexes table) > 1 then
                   (case fetchPKRow e table valuesByColID of
                      Inl err \<Rightarrow> (if err = ErrNoMoreRows then Inr ([], des summary) else Inl err)
                    | Inr currPKRow \<Rightarrow>
                        deleteIndexEntriesFor e (fst visits) pkEncVals (currValues table currPKRow)
                          valuesByColID table (des summary))
                 else Inr ([], des summary)) of
             Inl err \<Rightarrow> Inl err
           | Inr (reusableIndexEntries, ds1) \<Rightarrow>
               (case payloadLoop e valuesByColID (tbl_cols table)
                       (be32 (of_nat (length valuesByColID))) of
                  Inl err \<Rightarrow> Inl err
                | Inr valbuf \<Rightarrow>
                    (case secondaryLoop e pkEncVals valuesByColID table reusableIndexEntries
                            (rangeOver (snd visits) (indexes table))
                            (ds1 @ [\<lparr>kv_Key = mapKey e PIndexPrefix
                                                 [EncodeID e (tbl_db_id table), EncodeID e (tbl_id table),
                                                  EncodeID e (idx_id (primaryIndex table)), pkEncVals],
                                     kv_Value = 0 # valbuf,
                                     kv_Constraint = pkConstraint stmt table\<rparr>]) of
                       Inl err \<Rightarrow> Inl err
                     | Inr ds2 \<Rightarrow>
                         Inr (summary\<lparr>des := ds2, updatedRows := updatedRows summary + 1\<rparr>)))))"

text \<open>
  One iteration of the loop over \<open>stmt.rows\<close>. The table is the catalog's object, which the
  injection of the auto-incremental key changes in place (\<open>table.maxPK++\<close>), and \<open>mutated\<close>
  is \<open>e.catalog.mutated\<close>: both are returned as the iteration leaves them, also when it
  fails afterwards. \<open>visits\<close> are the ranks of the two loops over \<open>table.indexes\<close> in this
  iteration.
\<close>

definition compileRow ::
  "Engine \<Rightarrow> UpsertIntoStmt \<Rightarrow> (string \<Rightarrow> GoValue option) \<Rightarrow> Database \<Rightarrow> (uint32 \<times> nat) list \<Rightarrow>
   visit \<times> visit \<Rightarrow> ValueExp list \<Rightarrow> Table \<Rightarrow> bool \<Rightarrow> TxSummary \<Rightarrow>
   (error + TxSummary) \<times> Table \<times> bool" where
  "compileRow e stmt params implicitDB selPosByColID visits row table mutated summary =
     (if length row \<noteq> length (ups_cols stmt) then (Inl ErrInvalidNumberOfValues, table, mutated)
      else
        (case valuesLoop e stmt params implicitDB table selPosByColID row (tbl_cols table) [] of
           Inl err \<Rightarrow> (Inl err, table, mutated)
         | Inr valuesByColID \<Rightarrow>
             if isInsert stmt \<and> autoIncrementPK table then
               (case idx_cols (primaryIndex table) of
                  [] \<Rightarrow> (Inl RuntimePanic, table\<lparr>maxPK := maxPK table + 1\<rparr>, True)
                | pkCol # others \<Rightarrow>
                    (compileRowTail e stmt visits (table\<lparr>maxPK := maxPK table + 1\<rparr>)
                       (assign (col_id pkCol) (Number (maxPK table + 1)) valuesByColID)
                       (summary\<lparr>lastInsertedPKs :=
                                  assign (tbl_name table) (maxPK table + 1) (lastInsertedPKs summary)\<rparr>),
                     table\<lparr>maxPK := maxPK table + 1\<rparr>, True))
             else (compileRowTail e stmt visits table valuesByColID summary, table, mutated)))"

text \<open>The loop over \<open>stmt.rows\<close>; \<open>visitsOf n\<close> are the ranks of the two loops over
  \<open>table.indexes\<close> in the iteration of the \<open>n\<close>-th of the rows still to compile.\<close>

fun compileRows ::
  "Engine \<Rightarrow> UpsertIntoStmt \<Rightarrow> (string \<Rightarrow> GoValue option) \<Rightarrow> Database \<Rightarrow> (uint32 \<times> nat) list \<Rightarrow>
   (nat \<Rightarrow> visit \<times> visit) \<Rightarrow> ValueExp list list \<Rightarrow> Table \<Rightarrow> bool \<Rightarrow> TxSummary \<Rightarrow>
   (error + TxSummary) \<times> Table \<times> bool" where
  "compileRows e stmt params implicitDB selPosByColID visitsOf [] table mutated summary =
     (Inr summary, table, mutated)"
| "compileRows e stmt params implicitDB selPosByColID visitsOf (row # rest) table mutated summary =
     (case compileRow e stmt params implicitDB selPosByColID (visitsOf 0) row table mutated summary of
        (Inl err, table', mutated') \<Rightarrow> (Inl err, table', mutated')
      | (Inr summary', table', mutated') \<Rightarrow>
          compileRows e stmt params implicitDB selPosByColID (\<lambda>n. visitsOf (Suc n)) rest
            table' mutated' summary')"

text \<open>
  \<open>UpsertIntoStmt.compileUsing\<close>. Next to the summary or the error it returns the referenced
  table and the catalog's \<open>mutated\<close> flag as the call leaves them (\<open>None\<close> when no table was
  reached). \<open>visitsOf n\<close> are the ranks of the loops over \<open>table.indexes\<close> for row \<open>n\<close>.
\<close>

definition UpsertIntoStmt_compileUsing ::
  "Engine \<Rightarrow> UpsertIntoStmt \<Rightarrow> (nat \<Rightarrow> visit \<times> visit) \<Rightarrow> Database option \<Rightarrow>
   (string \<Rightarrow> GoValue option) \<Rightarrow> bool \<Rightarrow> (error + TxSummary) \<times> (Table \<times> bool) option" where
  "UpsertIntoStmt_compileUsing e stmt visitsOf implicitDB params mutated =
     (case implicitDB of
        None \<Rightarrow> (Inl ErrNoDatabaseSelected, None)
      | Some db \<Rightarrow>
          (case referencedTable e (ups_tableRef stmt) implicitDB of
             Inl err \<Rightarrow> (Inl err, None)
           | Inr table \<Rightarrow>
               (case validate stmt table of
                  Inl err \<Rightarrow> (Inl err, Some (table, mutated))
                | Inr selPosByColID \<Rightarrow>
                    (case compileRows e stmt params db selPosByColID visitsOf (ups_rows stmt) table
                            mutated (newTxSummary implicitDB) of
                       (res, table', mutated') \<Rightarrow> (res, Some (table', mutated'))))))"

subsection \<open>What the statements about \<open>UPSERT\<close> speak of\<close>

text \<open>
  The current (old) and the new value of an index column, with the \<open>NULL\<close> of the column's
  type for a missing one; two index keys are the same when every column's current value compares
  equal (\<open>Compare\<close> answers 0) to its new value.
\<close>

definition currValOf :: "(uint32 \<times> TypedValue option) list \<Rightarrow> Column \<Rightarrow> TypedValue option" where
  "currValOf currValuesByColID col =
     (case map_of currValuesByColID (col_id col) of
        None \<Rightarrow> Some (NullValue (colType col))
      | Some cv \<Rightarrow> cv)"

definition newValOf :: "(uint32 \<times> TypedValue) list \<Rightarrow> Column \<Rightarrow> TypedValue" where
  "newValOf valuesByColID col =
     (case map_of valuesByColID (col_id col) of
        None \<Rightarrow> NullValue (colType col)
      | Some nv \<Rightarrow> nv)"

definition sameIndexKey ::
  "(uint32 \<times> TypedValue option) list \<Rightarrow> (uint32 \<times> TypedValue) list \<Rightarrow> Index \<Rightarrow> bool" where
  "sameIndexKey currValuesByColID valuesByColID index =
     (\<forall>col \<in> set (idx_cols index).
        \<exists>cv. currValOf currValuesByColID col = Some cv
             \<and> Compare cv (newValOf valuesByColID col) = Inr 0)"

text \<open>
  The key of an entry of a secondary index for given column values: prefix \<open>U.\<close> or \<open>S.\<close>,
  the ids of database, table and index, the encoded column values, and for a non-unique index
  the encoded primary key. The tombstone entry is keyed by the old values and its value starts
  with byte 1; the live entry is keyed by the new values and its value starts with byte 0.
\<close>

definition indexKey ::
  "Engine \<Rightarrow> Table \<Rightarrow> Index \<Rightarrow> (Column \<Rightarrow> TypedValue) \<Rightarrow> byte list \<Rightarrow> byte list" where
  "indexKey e table index valueOf pkEncVals =
     mapKey e (if IsUnique index then UIndexPrefix else SIndexPrefix)
       ([EncodeID e (tbl_db_id table), EncodeID e (tbl_id table), EncodeID e (idx_id index)]
        @ map (\<lambda>col. fst (EncodeAsKey e (Value (valueOf col)) (colType col) (MaxLen e col)))
            (idx_cols index)
        @ (if IsUnique index then [] else [pkEncVals]))"

definition tombstoneEntry ::
  "Engine \<Rightarrow> Table \<Rightarrow> (uint32 \<times> TypedValue option) list \<Rightarrow> byte list \<Rightarrow> Index \<Rightarrow> KV" where
  "tombstoneEntry e table currValuesByColID pkEncVals index =
     \<lparr>kv_Key = indexKey e table index (\<lambda>col. the (currValOf currValuesByColID col)) pkEncVals,
      kv_Value = 1 # (if IsUnique index then pkEncVals else []),
      kv_Constraint = None\<rparr>"

definition liveEntry ::
  "Engine \<Rightarrow> Table \<Rightarrow> (uint32 \<times> TypedValue) list \<Rightarrow> byte list \<Rightarrow> Index \<Rightarrow> KV" where
  "liveEntry e table valuesByColID pkEncVals index =
     \<lparr>kv_Key = indexKey e table index (newValOf valuesByColID) pkEncVals,
      kv_Value = 0 # (if IsUnique index then pkEncVals else []),
      kv_Constraint = (if IsUnique index then Some DeletedOrMustNotExist else None)\<rparr>"

text \<open>
  The range that holds exactly one value, and the ranges that ask for the row with the primary
  key of the new row: every column of the primary index is pinned to the value the new row has
  for it, and no other column is constrained. The old value of a column is what the row read
  holds under the column's selector. The encoded primary key of the new row is the sequence of
  the encoded values of its primary-key columns.
\<close>

definition pointRange :: "TypedValue \<Rightarrow> typedValueRange" where
  "pointRange v = \<lparr>lRange = Some \<lparr>val = v, inclusive = True\<rparr>,
                   hRange = Some \<lparr>val = v, inclusive = True\<rparr>\<rparr>"

definition samePKRanges :: "Table \<Rightarrow> (uint32 \<times> TypedValue) list \<Rightarrow> ranges \<Rightarrow> bool" where
  "samePKRanges table valuesByColID rs =
     ((\<forall>col \<in> set (idx_cols (primaryIndex table)).
          map_of rs (col_id col) = Some (pointRange (newValOf valuesByColID col)))
      \<and> fst ` set rs \<subseteq> col_id ` set (idx_cols (primaryIndex table)))"

definition oldValOf :: "Table \<Rightarrow> Row \<Rightarrow> Column \<Rightarrow> TypedValue option" where
  "oldValOf table currPKRow col =
     Values currPKRow (EncodeSelector [] (tbl_db_name table) (tbl_name table) (colName col))"

definition pkOf :: "Engine \<Rightarrow> Table \<Rightarrow> (uint32 \<times> TypedValue) list \<Rightarrow> byte list" where
  "pkOf e table valuesByColID =
     concat (map (\<lambda>col. fst (EncodeAsKey e (Value (newValOf valuesByColID col)) (colType col)
                               (MaxLen e col)))
               (idx_cols (primaryIndex table)))"

text \<open>The primary entry of a row with encoded key \<open>pkEncVals\<close> and payload \<open>valbuf\<close>.\<close>

definition primaryEntry :: "Engine \<Rightarrow> Table \<Rightarrow> byte list \<Rightarrow> byte list \<Rightarrow> KVConstraint option \<Rightarrow> KV" where
  "primaryEntry e table pkEncVals valbuf c =
     \<lparr>kv_Key = mapKey e PIndexPrefix
                 [EncodeID e (tbl_db_id table), EncodeID e (tbl_id table),
                  EncodeID e (idx_id (primaryIndex table)), pkEncVals],
      kv_Value = 0 # valbuf,
      kv_Constraint = c\<rparr>"

text \<open>The constraint matrix of the specification, by statement kind and auto-incremental key.\<close>

fun constraintMatrix :: "bool \<Rightarrow> bool \<Rightarrow> KVConstraint option" where
  "constraintMatrix True False = Some DeletedOrMustNotExist"
| "constraintMatrix True True = None"
| "constraintMatrix False False = None"
| "constraintMatrix False True = Some MustExist"

text \<open>
  Modelled from the spec: the encoders and the key mapping are defined outside the modelled files.
  An id and a length prefix are 4 bytes big-endian. \<open>EncodeAsKey\<close>: \<open>INTEGER\<close>/\<open>TIMESTAMP\<close>
  values are 8 bytes big-endian with the sign bit flipped, \<open>BOOLEAN\<close> is one byte,
  \<open>VARCHAR\<close>/\<open>BLOB\<close> are the raw bytes right-padded with zero bytes to \<open>maxLen\<close> and followed
  by the 4-byte length; a fragment longer than \<open>maxKeyLen\<close> fails with
  \<open>MaxKeyLengthExceeded\<close>. \<open>EncodeValue\<close>: a 4-byte length prefix, then the raw bytes. A key is
  the ASCII prefix followed by its fields without separators. (The spec does not give the
  encoding of a nil value, nor of a value that is not of the column's type; here both are
  \<open>InvalidValue\<close>.) They serve as the encoders of the engine used in the concrete evaluations.
\<close>

definition spec_rawBytes :: "GoValue \<Rightarrow> SQLValueType \<Rightarrow> (byte list) option" where
  "spec_rawBytes v t =
     (case v of
        GoInt64 n \<Rightarrow> (if t = IntegerType \<or> t = TimestampType then Some (be64 n) else None)
      | GoBool b \<Rightarrow> (if t = BooleanType then Some [if b then 1 else 0] else None)
      | GoString s \<Rightarrow> (if t = VarcharType then Some (bytes_of s) else None)
      | GoBytes bs \<Rightarrow> (if t = BLOBType then Some bs else None)
      | _ \<Rightarrow> None)"

definition spec_EncodeAsKey :: "nat \<Rightarrow> GoValue \<Rightarrow> SQLValueType \<Rightarrow> int \<Rightarrow> byte list \<times> error option" where
  "spec_EncodeAsKey mkl v t ml =
     (case v of
        GoInt64 n \<Rightarrow>
          (if t = IntegerType \<or> t = TimestampType then (be64 (n + 0x8000000000000000), None)
           else ([], Some ErrInvalidValue))
      | _ \<Rightarrow>
          (case spec_rawBytes v t of
             None \<Rightarrow> ([], Some ErrInvalidValue)
           | Some raw \<Rightarrow>
               if t = BooleanType then (raw, None)
               else if int (length raw) > ml \<or> nat ml + 4 > mkl then ([], Some ErrMaxKeyLengthExceeded)
               else (raw @ replicate (nat ml - length raw) 0 @ be32 (of_nat (length raw)), None)))"

definition spec_EncodeValue :: "GoValue \<Rightarrow> SQLValueType \<Rightarrow> int \<Rightarrow> error + byte list" where
  "spec_EncodeValue v t ml =
     (case spec_rawBytes v t of
        None \<Rightarrow> Inl ErrInvalidValue
      | Some raw \<Rightarrow> Inr (be32 (of_nat (length raw)) @ raw))"

definition spec_mapKey :: "string \<Rightarrow> byte list list \<Rightarrow> byte list" where
  "spec_mapKey prefix parts = bytes_of prefix @ concat parts"

definition spec_MaxLen :: "Column \<Rightarrow> int" where
  "spec_MaxLen c =
     (if colType c = BooleanType then 1
      else if colType c = IntegerType \<or> colType c = TimestampType then 8
      else maxLen c)"

subsection \<open>Fixtures for the concrete evaluations\<close>

text \<open>An environment (clock at 0, ASCII-only upper-casing left as the identity, a matcher that
  never matches) and a table \<open>t (id INTEGER, a INTEGER, name VARCHAR[20], PRIMARY KEY id)\<close>
  of database \<open>db1\<close>.\<close>

definition testExt :: Ext where
  "testExt = \<lparr>time_Now_UnixNano = 0, strings_ToUpper = (\<lambda>s. s),
              regexp_MatchString = (\<lambda>p s. Inr False)\<rparr>"

definition testColId :: Column where
  "testColId = \<lparr>col_id = 1, colName = ''id'', colType = IntegerType, maxLen = 0,
                autoIncrement = False, notNull = False\<rparr>"

definition testColA :: Column where
  "testColA = \<lparr>col_id = 2, colName = ''a'', colType = IntegerType, maxLen = 0,
               autoIncrement = False, notNull = False\<rparr>"

definition testColName :: Column where
  "testColName = \<lparr>col_id = 3, colName = ''name'', colType = VarcharType, maxLen = 20,
                  autoIncrement = False, notNull = False\<rparr>"

definition testPK :: Index where
  "testPK = \<lparr>idx_id = 0, idx_unique = True, idx_cols = [testColId]\<rparr>"

definition testTable :: Table where
  "testTable = \<lparr>tbl_id = 1, tbl_name = ''t'', tbl_db_id = 1, tbl_db_name = ''db1'',
                tbl_cols = [testColId, testColA, testColName], primaryIndex = testPK,
                indexes = [testPK],
                indexesByColID = (\<lambda>c. if c = 1 then Some [testPK] else None),
                autoIncrementPK = False, maxPK = 0\<rparr>"

definition testRowLive :: Row where
  "testRowLive = \<lparr>Values = (\<lambda>k. if k = ''(db1.t.a)'' then Some (Number 1) else None)\<rparr>"

definition testRowNull :: Row where
  "testRowNull = \<lparr>Values = (\<lambda>k. if k = ''(db1.t.a)'' then Some (NullValue IntegerType) else None)\<rparr>"

definition testDB :: Database where
  "testDB = \<lparr>db_id = 1, db_name = ''db1'', db_tables = [testTable]\<rparr>"

text \<open>An engine over a store that holds no row of \<open>t\<close>.\<close>

definition testEngine :: Engine where
  "testEngine = \<lparr>eng_ext = testExt,
     GetDatabaseByName = (\<lambda>n. if n = ''db1'' then Inr testDB else Inl ErrDatabaseDoesNotExist),
     mapKey = spec_mapKey, EncodeID = be32, EncodeAsKey = spec_EncodeAsKey 256,
     EncodeValue = spec_EncodeValue, MaxLen = spec_MaxLen, maxKeyLen = 256,
     WaitForIndexingUpto = None, rawRead = (\<lambda>t a r. Inl ErrNoMoreRows)\<rparr>"

text \<open>\<open>SELECT ... FROM tn\<close> with the given \<open>GROUP BY\<close>, \<open>HAVING\<close> and \<open>ORDER BY\<close>.\<close>

definition testSelect ::
  "string \<Rightarrow> Selector list option \<Rightarrow> ValueExp option \<Rightarrow> OrdCol list \<Rightarrow> SelectStmt" where
  "testSelect tn gb hv ob =
     SelectStmt False [] (TableRefDS \<lparr>tr_db = [], tr_table = tn, tr_asBefore = 0, tr_as = []\<rparr>)
       [] [] None gb hv 0 ob []"

text \<open>
  Ranks for the loops over the indexes of a table: one that leaves them in the order of the
  list, and one that visits the index of id 1 last.
\<close>

definition listOrder :: visit where
  "listOrder = (\<lambda>i. 0)"

definition index1Last :: visit where
  "index1Last = (\<lambda>i. if idx_id i = 1 then 1 else 0)"

text \<open>
  A table \<open>u (id INTEGER, email VARCHAR[8], tag VARCHAR[8], PRIMARY KEY id)\<close> with a unique
  index on \<open>email\<close> (id 1) and a non-unique index on \<open>tag\<close> (id 2), an engine whose store
  holds the row \<open>(1, 'a', 'r')\<close> of it and no other (its reader answers with that row when it
  is opened on \<open>u\<close> with the column \<open>id\<close> pinned to 1, and with \<open>NoMoreRows\<close> otherwise),
  and the statement \<open>UPSERT INTO u (id, email, tag) VALUES (1, 'b', 'r')\<close> (or \<open>INSERT\<close>).
\<close>

definition uColId :: Column where
  "uColId = \<lparr>col_id = 1, colName = ''id'', colType = IntegerType, maxLen = 0,
             autoIncrement = False, notNull = False\<rparr>"

definition uColEmail :: Column where
  "uColEmail = \<lparr>col_id = 2, colName = ''email'', colType = VarcharType, maxLen = 8,
                autoIncrement = False, notNull = False\<rparr>"

definition uColTag :: Column where
  "uColTag = \<lparr>col_id = 3, colName = ''tag'', colType = VarcharType, maxLen = 8,
              autoIncrement = False, notNull = False\<rparr>"

definition uPK :: Index where
  "uPK = \<lparr>idx_id = 0, idx_unique = True, idx_cols = [uColId]\<rparr>"

definition uIdxEmail :: Index where
  "uIdxEmail = \<lparr>idx_id = 1, idx_unique = True, idx_cols = [uColEmail]\<rparr>"

definition uIdxTag :: Index where
  "uIdxTag = \<lparr>idx_id = 2, idx_unique = False, idx_cols = [uColTag]\<rparr>"

definition uTable :: Table where
  "uTable = \<lparr>tbl_id = 2, tbl_name = ''u'', tbl_db_id = 1, tbl_db_name = ''db1'',
             tbl_cols = [uColId, uColEmail, uColTag], primaryIndex = uPK,
             indexes = [uPK, uIdxEmail, uIdxTag],
             indexesByColID = (\<lambda>c. if c = 1 then Some [uPK] else if c = 2 then Some [uIdxEmail]
                                    else if c = 3 then Some [uIdxTag] else None),
             autoIncrementPK = False, maxPK = 0\<rparr>"

definition uDB :: Database where
  "uDB = \<lparr>db_id = 1, db_name = ''db1'', db_tables = [uTable]\<rparr>"

definition uRow :: Row where
  "uRow = \<lparr>Values = (\<lambda>k. if k = ''(db1.u.id)'' then Some (Number 1)
                         else if k = ''(db1.u.email)'' then Some (Varchar ''a'')
                         else if k = ''(db1.u.tag)'' then Some (Varchar ''r'')
                         else None)\<rparr>"

definition uEngine :: Engine where
  "uEngine = \<lparr>eng_ext = testExt,
     GetDatabaseByName = (\<lambda>n. if n = ''db1'' then Inr uDB else Inl ErrDatabaseDoesNotExist),
     mapKey = spec_mapKey, EncodeID = be32, EncodeAsKey = spec_EncodeAsKey 256,
     EncodeValue = spec_EncodeValue, MaxLen = spec_MaxLen, maxKeyLen = 256,
     WaitForIndexingUpto = None,
     rawRead = (\<lambda>t a r. if tbl_name t = ''u'' \<and> a = ''u'' \<and> map_of r 1 = Some (pointRange (Number 1))
                          then Inr uRow else Inl ErrNoMoreRows)\<rparr>"

definition uStmt :: "bool \<Rightarrow> UpsertIntoStmt" where
  "uStmt ins = \<lparr>isInsert = ins,
     ups_tableRef = \<lparr>tr_db = [], tr_table = ''u'', tr_asBefore = 0, tr_as = []\<rparr>,
     ups_cols = [''id'', ''email'', ''tag''],
     ups_rows = [[TV (Number 1), TV (Varchar ''b''), TV (Varchar ''r'')]]\<rparr>"

text \<open>
  A table \<open>s (id INTEGER AUTO_INCREMENT, name VARCHAR[20] NOT NULL, PRIMARY KEY id)\<close> whose
  counter stands at 7, with statements over the column lists \<open>(name)\<close> and \<open>(id)\<close>.
\<close>

definition sColId :: Column where
  "sColId = \<lparr>col_id = 1, colName = ''id'', colType = IntegerType, maxLen = 0,
             autoIncrement = True, notNull = False\<rparr>"

definition sColName :: Column where
  "sColName = \<lparr>col_id = 2, colName = ''name'', colType = VarcharType, maxLen = 20,
               autoIncrement = False, notNull = True\<rparr>"

definition sPK :: Index where
  "sPK = \<lparr>idx_id = 0, idx_unique = True, idx_cols = [sColId]\<rparr>"

definition sTable :: "Column list \<Rightarrow> int64 \<Rightarrow> Table" where
  "sTable cs n = \<lparr>tbl_id = 3, tbl_name = ''s'', tbl_db_id = 1, tbl_db_name = ''db1'',
             tbl_cols = cs, primaryIndex = sPK, indexes = [sPK],
             indexesByColID = (\<lambda>c. if c = 1 then Some [sPK] else None),
             autoIncrementPK = True, maxPK = n\<rparr>"

definition sDB :: "Column list \<Rightarrow> int64 \<Rightarrow> Database" where
  "sDB cs n = \<lparr>db_id = 1, db_name = ''db1'', db_tables = [sTable cs n]\<rparr>"

definition sStmt :: "bool \<Rightarrow> string list \<Rightarrow> ValueExp list list \<Rightarrow> UpsertIntoStmt" where
  "sStmt ins cs rs = \<lparr>isInsert = ins,
     ups_tableRef = \<lparr>tr_db = [], tr_table = ''s'', tr_asBefore = 0, tr_as = []\<rparr>,
     ups_cols = cs, ups_rows = rs\<rparr>"

text \<open>The positions of the columns of \<open>uStmt\<close>, its row and the values of that row, and the
  summary the row compiles to as an \<open>UPSERT\<close> over the store of \<open>uEngine\<close> when both
  loops visit the indexes in the order of the list: the tombstone of the old \<open>email\<close> key, the primary entry and the live
  entry of the new \<open>email\<close> key (the \<open>tag\<close> key is unchanged).\<close>

definition uSelPos :: "(uint32 \<times> nat) list" where
  "uSelPos = [(1, 0), (2, 1), (3, 2)]"

definition uRowSpec :: "ValueExp list" where
  "uRowSpec = [TV (Number 1), TV (Varchar ''b''), TV (Varchar ''r'')]"

definition uVals :: "(uint32 \<times> TypedValue) list" where
  "uVals = [(1, Number 1), (2, Varchar ''b''), (3, Varchar ''r'')]"

definition uSummary :: TxSummary where
  "uSummary = \<lparr>sum_db = Some uDB, ces = [],
     des = [\<lparr>kv_Key = [85, 46, 0, 0, 0, 1, 0, 0, 0, 2, 0, 0, 0, 1, 97, 0, 0, 0, 0,
                        0, 0, 0, 0, 0, 0, 1],
             kv_Value = [1, 128, 0, 0, 0, 0, 0, 0, 1],
             kv_Constraint = None\<rparr>,
            \<lparr>kv_Key = [80, 46, 0, 0, 0, 1, 0, 0, 0, 2, 0, 0, 0, 0, 128, 0, 0, 0, 0,
                        0, 0, 1],
             kv_Value = [0, 0, 0, 0, 3, 0, 0, 0, 1, 0, 0, 0, 8, 0, 0, 0, 0, 0, 0,
                         0, 1, 0, 0, 0, 2, 0, 0, 0, 1, 98, 0, 0, 0, 3, 0, 0, 0, 1,
                         114],
             kv_Constraint = None\<rparr>,
            \<lparr>kv_Key = [85, 46, 0, 0, 0, 1, 0, 0, 0, 2, 0, 0, 0, 1, 98, 0, 0, 0, 0,
                        0, 0, 0, 0, 0, 0, 1],
             kv_Value = [0, 128, 0, 0, 0, 0, 0, 0, 1],
             kv_Constraint = Some DeletedOrMustNotExist\<rparr>],
     updatedRows = 1, lastInsertedPKs = []\<rparr>"

text \<open>
  The row of \<open>UPSERT INTO u (id, email, tag) VALUES (1, 'b', 's')\<close>, which changes both
  secondary keys of the stored row, its values, and the summary it compiles to when the loop
  that deletes visits the indexes in the order \<open>email\<close>, \<open>tag\<close> and the loop that creates
  visits them in the order \<open>tag\<close>, \<open>email\<close>: the tombstones of the old \<open>email\<close> and
  \<open>tag\<close> keys, the primary entry, and the live entries of the new \<open>tag\<close> and \<open>email\<close>
  keys.
\<close>

definition uRowSpec2 :: "ValueExp list" where
  "uRowSpec2 = [TV (Number 1), TV (Varchar ''b''), TV (Varchar ''s'')]"

definition uVals2 :: "(uint32 \<times> TypedValue) list" where
  "uVals2 = [(1, Number 1), (2, Varchar ''b''), (3, Varchar ''s'')]"

definition uSummary2 :: TxSummary where
  "uSummary2 = \<lparr>sum_db = Some uDB, ces = [],
     des = [\<lparr>kv_Key = [85, 46, 0, 0, 0, 1, 0, 0, 0, 2, 0, 0, 0, 1, 97, 0, 0, 0, 0,
                        0, 0, 0, 0, 0, 0, 1],
             kv_Value = [1, 128, 0, 0, 0, 0, 0, 0, 1],
             kv_Constraint = None\<rparr>,
            \<lparr>kv_Key = [83, 46, 0, 0, 0, 1, 0, 0, 0, 2, 0, 0, 0, 2, 114, 0, 0, 0, 0,
                        0, 0, 0, 0, 0, 0, 1, 128, 0, 0, 0, 0, 0, 0, 1],
             kv_Value = [1], kv_Constraint = None\<rparr>,
            \<lparr>kv_Key = [80, 46, 0, 0, 0, 1, 0, 0, 0, 2, 0, 0, 0, 0, 128, 0, 0, 0, 0,
                        0, 0, 1],
             kv_Value = [0, 0, 0, 0, 3, 0, 0, 0, 1, 0, 0, 0, 8, 0, 0, 0, 0, 0, 0,
                         0, 1, 0, 0, 0, 2, 0, 0, 0, 1, 98, 0, 0, 0, 3, 0, 0, 0, 1,
                         115],
             kv_Constraint = None\<rparr>,
            \<lparr>kv_Key = [83, 46, 0, 0, 0, 1, 0, 0, 0, 2, 0, 0, 0, 2, 115, 0, 0, 0, 0,
                        0, 0, 0, 0, 0, 0, 1, 128, 0, 0, 0, 0, 0, 0, 1],
             kv_Value = [0], kv_Constraint = None\<rparr>,
            \<lparr>kv_Key = [85, 46, 0, 0, 0, 1, 0, 0, 0, 2, 0, 0, 0, 1, 98, 0, 0, 0, 0,
                        0, 0, 0, 0, 0, 0, 1],
             kv_Value = [0, 128, 0, 0, 0, 0, 0, 0, 1],
             kv_Constraint = Some DeletedOrMustNotExist\<rparr>],
     updatedRows = 1, lastInsertedPKs = []\<rparr>"

text \<open>The summary of \<open>INSERT INTO s (name) VALUES ('x'), ('y')\<close> compiled with the counter of
  \<open>s\<close> at 7: the primary entries of the keys 8 and 9.\<close>

definition sSummary :: TxSummary where
  "sSummary = \<lparr>sum_db = Some (sDB [sColId, sColName] 7), ces = [],
     des = [\<lparr>kv_Key = [80, 46, 0, 0, 0, 1, 0, 0, 0, 3, 0, 0, 0, 0, 128, 0, 0, 0, 0,
                        0, 0, 8],
             kv_Value = [0, 0, 0, 0, 2, 0, 0, 0, 1, 0, 0, 0, 8, 0, 0, 0, 0, 0, 0, 0,
                         8, 0, 0, 0, 2, 0, 0, 0, 1, 120],
             kv_Constraint = None\<rparr>,
            \<lparr>kv_Key = [80, 46, 0, 0, 0, 1, 0, 0, 0, 3, 0, 0, 0, 0, 128, 0, 0, 0, 0,
                        0, 0, 9],
             kv_Value = [0, 0, 0, 0, 2, 0, 0, 0, 1, 0, 0, 0, 8, 0, 0, 0, 0, 0, 0, 0,
                         9, 0, 0, 0, 2, 0, 0, 0, 1, 121],
             kv_Constraint = None\<rparr>],
     updatedRows = 2, lastInsertedPKs = [(''s'', 9)]\<rparr>"

section \<open>Properties\<close>

lemma type_distinct [simp]:
  "IntegerType \<noteq> BooleanType" "IntegerType \<noteq> VarcharType" "IntegerType \<noteq> BLOBType"
  "IntegerType \<noteq> TimestampType" "IntegerType \<noteq> AnyType"
  "BooleanType \<noteq> IntegerType" "BooleanType \<noteq> VarcharType" "BooleanType \<noteq> BLOBType"
  "BooleanType \<noteq> TimestampType" "BooleanType \<noteq> AnyType"
  "VarcharType \<noteq> IntegerType" "VarcharType \<noteq> BooleanType" "VarcharType \<noteq> BLOBType"
  "VarcharType \<noteq> TimestampType" "VarcharType \<noteq> AnyType"
  "BLOBType \<noteq> IntegerType" "BLOBType \<noteq> BooleanType" "BLOBType \<noteq> VarcharType"
  "BLOBType \<noteq> TimestampType" "BLOBType \<noteq> AnyType"
  "TimestampType \<noteq> IntegerType" "TimestampType \<noteq> BooleanType" "TimestampType \<noteq> VarcharType"
  "TimestampType \<noteq> BLOBType" "TimestampType \<noteq> AnyType"
  "AnyType \<noteq> IntegerType" "AnyType \<noteq> BooleanType" "AnyType \<noteq> VarcharType"
  "AnyType \<noteq> BLOBType" "AnyType \<noteq> TimestampType"
  by (simp_all add: IntegerType_def BooleanType_def VarcharType_def BLOBType_def
      TimestampType_def AnyType_def)

subsection \<open>The constraint \<open>deletedOrMustNotExist\<close>\<close>

text \<open>
  C4. The engine-supplied constraint accepts a key that is absent from the store (the lookup
  reported \<open>KeyNotFound\<close>), accepts a key that is present with the leading (tombstone) byte of
  its value equal to 1, and rejects with \<open>KeyAlreadyExists\<close> a key that is present and live
  (tombstone byte 0).
\<close>

theorem deletedOrMustNotExist_verdict:
  "deletedOrMustNotExist key currValue (Some ErrKeyNotFound) = None
   \<and> deletedOrMustNotExist key (1 # rest) None = None
   \<and> deletedOrMustNotExist key (0 # rest) None = Some ErrKeyAlreadyExists"
  by (simp add: deletedOrMustNotExist_def)

subsection \<open>Typed comparison\<close>

lemma Type_not_Any: "\<not> isNull v \<Longrightarrow> Type v \<noteq> AnyType"
  by (cases v) simp_all

lemma Compare_nonnull_Null: "\<not> isNull v \<Longrightarrow> Compare v (NullValue t) = Inr 1"
  by (cases v) simp_all

lemma Compare_Null_nonnull:
  "\<not> isNull v \<Longrightarrow>
   Compare (NullValue t) v =
     (if t \<noteq> AnyType \<and> t \<noteq> Type v then Inl ErrNotComparableValues else Inr (-1))"
  by (cases v) simp_all

lemma Compare_cross_type:
  "\<not> isNull v \<Longrightarrow> \<not> isNull w \<Longrightarrow> Type v \<noteq> Type w \<Longrightarrow> Compare v w = Inl ErrNotComparableValues"
  by (cases v; cases w) simp_all

text \<open>
  C6, as the claim states it, fails: a \<open>NULL\<close> of type \<open>INTEGER\<close> does not compare equal to a
  \<open>NULL\<close> of type \<open>VARCHAR\<close>, and is not less than a non-null \<open>VARCHAR\<close>; both comparisons
  are refused by the type guard of \<open>NullValue.Compare\<close>.
\<close>

theorem Compare_typed_nulls_counterexample:
  "Compare (NullValue IntegerType) (NullValue VarcharType) = Inl ErrNotComparableValues
   \<and> Compare (NullValue IntegerType) (Varchar ''a'') = Inl ErrNotComparableValues"
  by simp

text \<open>
  C6, amended. Two \<open>NULL\<close>s compare equal when their types are identical or one of them is
  \<open>ANY\<close>, and fail with \<open>NotComparableValues\<close> otherwise; a \<open>NULL\<close> receiver is strictly less
  than a non-null value when its type is \<open>ANY\<close> or the value's type, and fails with
  \<open>NotComparableValues\<close> otherwise; a non-null receiver is greater than a \<open>NULL\<close> of any type;
  comparing two non-null values of different types fails with \<open>NotComparableValues\<close>.
\<close>

theorem Compare_typed:
  "Compare (NullValue t) (NullValue t') =
     (if t \<noteq> AnyType \<and> t' \<noteq> AnyType \<and> t \<noteq> t' then Inl ErrNotComparableValues else Inr 0)
   \<and> (\<not> isNull v \<longrightarrow>
        Compare (NullValue t) v =
          (if t \<noteq> AnyType \<and> t \<noteq> Type v then Inl ErrNotComparableValues else Inr (-1))
        \<and> Compare v (NullValue t) = Inr 1)
   \<and> (\<not> isNull v \<longrightarrow> \<not> isNull w \<longrightarrow> Type v \<noteq> Type w \<longrightarrow>
        Compare v w = Inl ErrNotComparableValues)"
  using Compare_nonnull_Null Compare_Null_nonnull Compare_cross_type by simp

theorem Compare_typed_witness:
  "\<not> isNull (Number 7) \<and> \<not> isNull (Varchar ''a'') \<and> Type (Number 7) \<noteq> Type (Varchar ''a'')
   \<and> Compare (NullValue AnyType) (NullValue BLOBType) = Inr 0
   \<and> Compare (NullValue IntegerType) (Number 7) = Inr (-1)
   \<and> Compare (Number 7) (NullValue IntegerType) = Inr 1
   \<and> Compare (Number 7) (Varchar ''a'') = Inl ErrNotComparableValues"
  using Compare_typed [of AnyType BLOBType "Number 7" "Varchar ''a''"]
    Compare_typed [of IntegerType IntegerType "Number 7" "Varchar ''a''"]
  by simp

subsection \<open>Comparison with \<open>NULL\<close> in a filter\<close>

lemma reduce_eq_null:
  "Values r (EncodeSelector_of (resolve (ColSelector db tb c a) idb itb)) = Some v \<Longrightarrow>
   reduce ext (CmpBoolExp EQ (Sel (ColSelector db tb c a)) (TV (NullValue nt))) (Some r) idb itb =
     (if isNull v
      then (if Type v \<noteq> AnyType \<and> nt \<noteq> AnyType \<and> Type v \<noteq> nt
            then Inl ErrNotComparableValues else Inr (Bool True))
      else Inr (Bool False))"
  by (cases v) (simp_all del: resolve.simps)

lemma conditionalRead_eq_null:
  assumes "\<forall>r \<in> set rows. \<exists>v.
             Values r (EncodeSelector_of (resolve (ColSelector db tb c a) idb itb)) = Some v
             \<and> (isNull v \<longrightarrow> Type v = AnyType \<or> nt = AnyType \<or> Type v = nt)"
  shows "conditionalRead ext (CmpBoolExp EQ (Sel (ColSelector db tb c a)) (TV (NullValue nt))) idb itb rows =
     (case dropWhile (\<lambda>r. \<not> isNull (the (Values r
              (EncodeSelector_of (resolve (ColSelector db tb c a) idb itb))))) rows of
        [] \<Rightarrow> (Inl ErrNoMoreRows, [])
      | r # rest \<Rightarrow> (Inr r, rest))"
  using assms
proof (induction rows)
  case Nil
  then show ?case by simp
next
  case (Cons r rows)
  then obtain v where v: "Values r (EncodeSelector_of (resolve (ColSelector db tb c a) idb itb)) = Some v"
    and ty: "isNull v \<longrightarrow> Type v = AnyType \<or> nt = AnyType \<or> Type v = nt"
    by auto
  from Cons have IH: "conditionalRead ext (CmpBoolExp EQ (Sel (ColSelector db tb c a)) (TV (NullValue nt))) idb itb rows =
     (case dropWhile (\<lambda>r. \<not> isNull (the (Values r
              (EncodeSelector_of (resolve (ColSelector db tb c a) idb itb))))) rows of
        [] \<Rightarrow> (Inl ErrNoMoreRows, [])
      | r # rest \<Rightarrow> (Inr r, rest))" by simp
  show ?case
    using ty
    by (simp only: conditionalRead.simps reduce_eq_null [OF v] IH dropWhile.simps v option.sel)
      auto
qed

text \<open>
  C1, as the claim states it, fails: on a row that has \<open>NULL\<close> in column \<open>a\<close>, the condition
  \<open>a = NULL\<close> reduces to true (\<open>NullValue.Compare\<close> answers 0 for two nulls, and
  \<open>cmpSatisfiesOp 0 EQ\<close> is true), so over a table whose only row is that one the filter of
  \<open>SELECT * FROM t WHERE a = NULL\<close> delivers the row.
\<close>

theorem select_eq_null_counterexample:
  "reduce testExt (CmpBoolExp EQ (Sel (ColSelector [] [] ''a'' [])) (TV (NullValue AnyType)))
     (Some testRowNull) ''db1'' ''t'' = Inr (Bool True)
   \<and> conditionalRead testExt
     (CmpBoolExp EQ (Sel (ColSelector [] [] ''a'' [])) (TV (NullValue AnyType))) ''db1'' ''t''
     [testRowNull]
   = (Inr testRowNull, [])"
  by (simp add: EncodeSelector_of_def EncodeSelector_def testRowNull_def)

text \<open>
  C1, amended. On a row that carries column \<open>col\<close>, the condition \<open>col = NULL\<close> of
  \<open>SELECT * FROM t WHERE col = NULL\<close> reduces to false when the row's \<open>col\<close> value is
  non-null, and to true when it is \<open>NULL\<close> (an error when the two nulls are typed
  incompatibly: different types, neither \<open>ANY\<close>): under \<open>=\<close>, null is unequal to every
  non-null value and equal to null. So over rows that all carry \<open>col\<close>, with nulls typed
  compatibly with the literal, the filter rejects every row whose \<open>col\<close> value is non-null and
  delivers every row whose \<open>col\<close> value is \<open>NULL\<close>: a \<open>Read\<close> skips the leading rows with a
  non-null \<open>col\<close> and returns the first row with a null \<open>col\<close>, or \<open>NoMoreRows\<close> when
  there is none.
\<close>

theorem select_eq_null:
  "(Values r (EncodeSelector_of (resolve (ColSelector db tb c a) idb itb)) = Some v \<longrightarrow>
      reduce ext (CmpBoolExp EQ (Sel (ColSelector db tb c a)) (TV (NullValue nt))) (Some r) idb itb =
        (if isNull v
         then (if Type v \<noteq> AnyType \<and> nt \<noteq> AnyType \<and> Type v \<noteq> nt
               then Inl ErrNotComparableValues else Inr (Bool True))
         else Inr (Bool False)))
   \<and> ((\<forall>r \<in> set rows. \<exists>v.
             Values r (EncodeSelector_of (resolve (ColSelector db tb c a) idb itb)) = Some v
             \<and> (isNull v \<longrightarrow> Type v = AnyType \<or> nt = AnyType \<or> Type v = nt)) \<longrightarrow>
       conditionalRead ext (CmpBoolExp EQ (Sel (ColSelector db tb c a)) (TV (NullValue nt))) idb itb rows =
         (case dropWhile (\<lambda>r. \<not> isNull (the (Values r
                  (EncodeSelector_of (resolve (ColSelector db tb c a) idb itb))))) rows of
            [] \<Rightarrow> (Inl ErrNoMoreRows, [])
          | r # rest \<Rightarrow> (Inr r, rest)))"
proof (intro conjI impI)
  assume "Values r (EncodeSelector_of (resolve (ColSelector db tb c a) idb itb)) = Some v"
  then show "reduce ext (CmpBoolExp EQ (Sel (ColSelector db tb c a)) (TV (NullValue nt))) (Some r) idb itb =
        (if isNull v
         then (if Type v \<noteq> AnyType \<and> nt \<noteq> AnyType \<and> Type v \<noteq> nt
               then Inl ErrNotComparableValues else Inr (Bool True))
         else Inr (Bool False))"
    by (rule reduce_eq_null)
next
  assume "\<forall>r \<in> set rows. \<exists>v.
             Values r (EncodeSelector_of (resolve (ColSelector db tb c a) idb itb)) = Some v
             \<and> (isNull v \<longrightarrow> Type v = AnyType \<or> nt = AnyType \<or> Type v = nt)"
  then show "conditionalRead ext (CmpBoolExp EQ (Sel (ColSelector db tb c a)) (TV (NullValue nt))) idb itb rows =
         (case dropWhile (\<lambda>r. \<not> isNull (the (Values r
                  (EncodeSelector_of (resolve (ColSelector db tb c a) idb itb))))) rows of
            [] \<Rightarrow> (Inl ErrNoMoreRows, [])
          | r # rest \<Rightarrow> (Inr r, rest))"
    by (rule conditionalRead_eq_null)
qed

theorem select_eq_null_witness:
  "reduce testExt (CmpBoolExp EQ (Sel (ColSelector [] [] ''a'' [])) (TV (NullValue AnyType)))
     (Some testRowLive) ''db1'' ''t'' = Inr (Bool False)
   \<and> conditionalRead testExt
     (CmpBoolExp EQ (Sel (ColSelector [] [] ''a'' [])) (TV (NullValue AnyType))) ''db1'' ''t''
     [testRowLive, testRowNull]
   = (Inr testRowNull, [])
   \<and> conditionalRead testExt
     (CmpBoolExp EQ (Sel (ColSelector [] [] ''a'' [])) (TV (NullValue AnyType))) ''db1'' ''t''
     [testRowLive, testRowLive]
   = (Inl ErrNoMoreRows, [])"
  using
    select_eq_null [where r = testRowLive and v = "Number 1" and rows = "[testRowLive, testRowNull]"
      and db = "[]" and tb = "[]" and c = "''a''" and a = "[]" and idb = "''db1''" and itb = "''t''"
      and nt = AnyType and ext = testExt]
    select_eq_null [where r = testRowLive and v = "Number 1" and rows = "[testRowLive, testRowLive]"
      and db = "[]" and tb = "[]" and c = "''a''" and a = "[]" and idb = "''db1''" and itb = "''t''"
      and nt = AnyType and ext = testExt]
  by (simp add: EncodeSelector_of_def EncodeSelector_def testRowNull_def testRowLive_def)

subsection \<open>Ranges of a comparison\<close>

lemma matchingFunc_None:
  "\<not> isColSelector l \<or> \<not> isConstant r \<Longrightarrow> matchingFunc l r x y = None"
  by (cases l rule: isColSelector.cases) (auto simp: matchingFunc_def)

lemma isConstant_not_selector: "isConstant l \<Longrightarrow> \<not> isColSelector l"
  by (cases l rule: isColSelector.cases) auto

lemma matchingFunc_same_test: "(matchingFunc l r r l = None) = (matchingFunc l r l r = None)"
  by (cases l rule: isColSelector.cases) (auto simp: matchingFunc_def)

text \<open>
  C10. \<open>selectorRanges\<close> of a comparison contributes a range only when the comparison's left
  operand is a column selector and its right operand is a constant expression: otherwise
  \<open>rangesByColID\<close> is returned unchanged, in particular for every comparison with a constant on
  the left and the column selector on the right. The second matching attempt (operands swapped)
  succeeds exactly when the first does, since \<open>matchingFunc\<close> tests the receiver's own operands.
\<close>

theorem selectorRanges_cmp_left_selector_only:
  "(\<not> isColSelector l \<or> \<not> isConstant r \<longrightarrow>
      selectorRanges ext (CmpBoolExp op l r) table asTable params rangesByColID = Inr rangesByColID)
   \<and> (isConstant l \<longrightarrow>
      selectorRanges ext (CmpBoolExp op l (Sel (ColSelector db t c a))) table asTable params rangesByColID
        = Inr rangesByColID)
   \<and> (matchingFunc l r r l = None) = (matchingFunc l r l r = None)"
  using matchingFunc_None isConstant_not_selector matchingFunc_same_test by simp

theorem selectorRanges_cmp_left_selector_only_witness:
  "isConstant (TV (Number 5))
   \<and> selectorRanges testExt (CmpBoolExp GT (TV (Number 5)) (Sel (ColSelector [] [] ''a'' [])))
        testTable ''t'' Map.empty [] = Inr []"
  using selectorRanges_cmp_left_selector_only [of "TV (Number 5)" "Sel (ColSelector [] [] ''a'' [])"
      testExt GT testTable "''t''" Map.empty "[]" "[]" "[]" "''a''" "[]"]
  by simp

subsection \<open>Lexing of words\<close>

lemma newAheadByteReader_Cons:
  "newAheadByteReader (c # cs) e = \<lparr>nextChar = c, nextErr = None, r_rest = cs, r_err = e\<rparr>"
  by (simp add: newAheadByteReader_def r_ReadByte_def)

lemma newAheadByteReader_Nil:
  "newAheadByteReader [] e = \<lparr>nextChar = CHR 0x00, nextErr = Some e, r_rest = [], r_err = e\<rparr>"
  by (simp add: newAheadByteReader_def r_ReadByte_def)

lemma ReadByte_Cons:
  "ReadByte (newAheadByteReader (c # cs) e) = ((c, None), newAheadByteReader cs e)"
  by (cases cs) (simp_all add: ReadByte_def newAheadByteReader_def r_ReadByte_def)

lemma readWord_stop:
  assumes "case rest of [] \<Rightarrow> e = EOF | x # _ \<Rightarrow> \<not> isLetter x \<and> \<not> isNumber x"
  shows "readWord (newAheadByteReader rest e) b = (Inr b, newAheadByteReader rest e)"
proof (cases rest)
  case Nil
  with assms show ?thesis
    by (subst readWord.simps) (simp add: newAheadByteReader_Nil)
next
  case (Cons x xs)
  with assms show ?thesis
    by (subst readWord.simps) (simp add: newAheadByteReader_Cons)
qed

lemma readWord_word:
  assumes "\<forall>x \<in> set w. isLetter x \<or> isNumber x"
    and "case rest of [] \<Rightarrow> e = EOF | x # _ \<Rightarrow> \<not> isLetter x \<and> \<not> isNumber x"
  shows "readWord (newAheadByteReader (w @ rest) e) b = (Inr (b @ w), newAheadByteReader rest e)"
  using assms
proof (induction w arbitrary: b)
  case Nil
  then show ?case by (simp add: readWord_stop)
next
  case (Cons c w)
  have step: "readWord (newAheadByteReader (c # w @ rest) e) b =
              readWord (newAheadByteReader (w @ rest) e) (b @ [c])"
    using Cons.prems(1)
    by (subst readWord.simps) (auto simp: ReadByte_Cons, auto simp: newAheadByteReader_Cons)
  show ?case using Cons by (simp add: step)
qed

lemma skipSpaces_letter:
  "isLetter c \<Longrightarrow> skipSpaces (newAheadByteReader (c # cs) e) = (Inr c, newAheadByteReader cs e)"
  apply (subst skipSpaces.simps)
  apply (simp add: ReadByte_Cons)
  apply (auto simp: newAheadByteReader_Cons isLetter_def isSpace_def)
  done

lemma isLetter_not_sep: "isLetter c \<Longrightarrow> \<not> isSeparator c"
  by (auto simp: isLetter_def isSeparator_def)

lemma skipSpaces_spaces:
  "isLetter c \<Longrightarrow>
   skipSpaces (newAheadByteReader (replicate n (CHR '' '') @ c # cs) e) = (Inr c, newAheadByteReader cs e)"
proof (induction n)
  case 0
  then show ?case by (simp add: skipSpaces_letter)
next
  case (Suc n)
  have "skipSpaces (newAheadByteReader (CHR '' '' # replicate n (CHR '' '') @ c # cs) e)
        = skipSpaces (newAheadByteReader (replicate n (CHR '' '') @ c # cs) e)"
    by (subst skipSpaces.simps) (simp add: ReadByte_Cons, simp add: newAheadByteReader_Cons isSpace_def)
  with Suc show ?case by simp
qed

lemma Lex_word:
  assumes "isLetter c" and "\<forall>x \<in> set tail. isLetter x \<or> isNumber x"
    and "case rest of [] \<Rightarrow> e = EOF | x # _ \<Rightarrow> \<not> isLetter x \<and> \<not> isNumber x"
  shows "Lex (newAheadByteReader (replicate n (CHR '' '') @ c # tail @ rest) e) lval =
           ((if isType (c # tail) then TYPE_tok
             else case reservedWords (c # tail) of None \<Rightarrow> ID | Some tkn \<Rightarrow> tkn),
            lval\<lparr>sym_id := c # tail\<rparr>, newAheadByteReader rest e)"
  using assms(1)
  by (simp add: Lex_def skipSpaces_spaces isLetter_not_sep
      readWord_word [OF assms(2,3), of "[]", simplified] split: option.splits)

text \<open>
  C9, as the claim states it, fails: the lower-case word \<open>create\<close> is lexed as an identifier
  (\<open>ID\<close>), not as the reserved token \<open>CREATE\<close> that its upper-case form yields; the lexer looks
  the word up as written.
\<close>

theorem Lex_lowercase_keyword_counterexample:
  "fst (Lex (newAheadByteReader ''create'' EOF) \<lparr>sym_id = [], sym_err = None\<rparr>) = ID
   \<and> fst (Lex (newAheadByteReader ''CREATE'' EOF) \<lparr>sym_id = [], sym_err = None\<rparr>) = CREATE"
  using Lex_word [where c = "CHR ''c''" and tail = "''reate''" and rest = "[]" and e = EOF and n = 0]
    Lex_word [where c = "CHR ''C''" and tail = "''REATE''" and rest = "[]" and e = EOF and n = 0]
  by (simp add: isLetter_def isNumber_def isType_def types_def reservedWords_def)

text \<open>
  C9, amended. Lexing matches reserved keywords and type names exactly as written, with no case
  normalization: a word (a letter followed by letters and digits, after any number of spaces and
  ended by another byte or by the end of the input) is the token \<open>TYPE\<close> when it is literally one of the type names, the
  reserved token when it is literally one of the (all upper-case) reserved words, and an
  identifier otherwise, and it is handed to the parser unchanged. So a lower or mixed case
  spelling of a keyword (for example \<open>create\<close>) is an identifier.
\<close>

theorem Lex_word_exact:
  assumes "isLetter c" and "\<forall>x \<in> set tail. isLetter x \<or> isNumber x"
    and "case rest of [] \<Rightarrow> e = EOF | x # _ \<Rightarrow> \<not> isLetter x \<and> \<not> isNumber x"
  shows "Lex (newAheadByteReader (replicate n (CHR '' '') @ c # tail @ rest) e) lval =
           ((if c # tail \<in> set types then TYPE_tok
             else case reservedWords (c # tail) of None \<Rightarrow> ID | Some tkn \<Rightarrow> tkn),
            lval\<lparr>sym_id := c # tail\<rparr>, newAheadByteReader rest e)"
  using Lex_word [OF assms] by (simp add: isType_def)

theorem Lex_word_exact_witness:
  "Lex (newAheadByteReader ''create table'' EOF) \<lparr>sym_id = [], sym_err = None\<rparr> =
     (ID, \<lparr>sym_id = ''create'', sym_err = None\<rparr>, newAheadByteReader '' table'' EOF)
   \<and> Lex (newAheadByteReader ''CREATE table'' EOF) \<lparr>sym_id = [], sym_err = None\<rparr> =
     (CREATE, \<lparr>sym_id = ''CREATE'', sym_err = None\<rparr>, newAheadByteReader '' table'' EOF)
   \<and> Lex (newAheadByteReader ''INTEGER'' EOF) \<lparr>sym_id = [], sym_err = None\<rparr> =
     (TYPE_tok, \<lparr>sym_id = ''INTEGER'', sym_err = None\<rparr>, newAheadByteReader [] EOF)
   \<and> Lex (newAheadByteReader ''Integer'' EOF) \<lparr>sym_id = [], sym_err = None\<rparr> =
     (ID, \<lparr>sym_id = ''Integer'', sym_err = None\<rparr>, newAheadByteReader [] EOF)"
  using
    Lex_word_exact [where c = "CHR ''c''" and tail = "''reate''" and rest = "'' table''" and e = EOF
      and lval = "\<lparr>sym_id = [], sym_err = None\<rparr>" and n = 0]
    Lex_word_exact [where c = "CHR ''C''" and tail = "''REATE''" and rest = "'' table''" and e = EOF
      and lval = "\<lparr>sym_id = [], sym_err = None\<rparr>" and n = 0]
    Lex_word_exact [where c = "CHR ''I''" and tail = "''NTEGER''" and rest = "[]" and e = EOF
      and lval = "\<lparr>sym_id = [], sym_err = None\<rparr>" and n = 0]
    Lex_word_exact [where c = "CHR ''I''" and tail = "''nteger''" and rest = "[]" and e = EOF
      and lval = "\<lparr>sym_id = [], sym_err = None\<rparr>" and n = 0]
  by (simp add: isLetter_def isNumber_def types_def reservedWords_def)

subsection \<open>Restrictions on \<open>SELECT\<close>\<close>

text \<open>
  C8, as the claim states it, fails: a \<open>SELECT\<close> with no \<open>GROUP BY\<close>, \<open>HAVING\<close> or
  \<open>ORDER BY\<close> at all does not compile when no database is selected
  (\<open>NoDatabaseSelected\<close>); and with a database selected, an \<open>ORDER BY\<close> on a column the table
  does not have fails with \<open>ColumnDoesNotExist\<close>, which is neither a success nor
  \<open>LimitedOrderBy\<close>.
\<close>

theorem SelectStmt_compileUsing_counterexample:
  "SelectStmt_compileUsing testEngine (testSelect ''t'' None None []) None = Inl ErrNoDatabaseSelected
   \<and> SelectStmt_compileUsing testEngine
        (testSelect ''t'' None None [\<lparr>ord_sel = ColSelector [] [] ''zz'' [], descOrder = False\<rparr>])
        (Some testDB)
      = Inl ErrColumnDoesNotExist"
  by (simp add: SelectStmt_compileUsing_def slice_len_def testSelect_def referencedTable_def
      GetTableByName_def testDB_def testTable_def GetColumnByName_def testColId_def testColA_def
      testColName_def)

text \<open>
  C8, amended. Without a selected database compiling a \<open>SELECT\<close> fails with
  \<open>NoDatabaseSelected\<close>. With a database selected, it fails with
  \<open>HavingClauseRequiresGroupClause\<close> when \<open>HAVING\<close> is present and there is no \<open>GROUP BY\<close>
  (the slice \<open>groupBy\<close> is nil), and with \<open>LimitedGroupBy\<close> when \<open>GROUP BY\<close> lists more than
  one column. When neither is the case (no \<open>GROUP BY\<close> and no \<open>HAVING\<close>, or a \<open>groupBy\<close>
  slice of at most one column) it fails with \<open>LimitedOrderBy\<close> when \<open>ORDER BY\<close> lists more
  than one column, or when \<open>ORDER BY\<close> is used on a data source that is not a table reference;
  with a single \<open>ORDER BY\<close> column on a table reference it fails with the error of the lookup
  when the referenced table does not resolve, with the error of the lookup when the table
  resolves and the target column does not, and with \<open>LimitedOrderBy\<close> when both resolve and the
  column is not covered by any index of the table; and it compiles without error when there is
  no \<open>ORDER BY\<close>, or when its single target column resolves in the referenced table and is
  covered by an index.
\<close>

theorem SelectStmt_compileUsing_restrictions:
  "SelectStmt_compileUsing e stmt None = Inl ErrNoDatabaseSelected
   \<and> (stmt_groupBy stmt = None \<and> stmt_having stmt \<noteq> None \<longrightarrow>
      SelectStmt_compileUsing e stmt (Some db) = Inl ErrHavingClauseRequiresGroupClause)
   \<and> (stmt_groupBy stmt = Some gs \<and> length gs > 1 \<longrightarrow>
      SelectStmt_compileUsing e stmt (Some db) = Inl ErrLimitedGroupBy)
   \<and> (stmt_groupBy stmt = None \<and> stmt_having stmt = None
        \<or> stmt_groupBy stmt = Some gs \<and> length gs \<le> 1 \<longrightarrow>
        (length (stmt_orderBy stmt) > 1 \<longrightarrow>
           SelectStmt_compileUsing e stmt (Some db) = Inl ErrLimitedOrderBy)
      \<and> (stmt_orderBy stmt = [oc] \<and> stmt_ds stmt = SelectDS sub \<longrightarrow>
           SelectStmt_compileUsing e stmt (Some db) = Inl ErrLimitedOrderBy)
      \<and> (stmt_orderBy stmt = [oc] \<and> stmt_ds stmt = TableRefDS tr
           \<and> referencedTable e tr (Some db) = Inl err \<longrightarrow>
           SelectStmt_compileUsing e stmt (Some db) = Inl err)
      \<and> (stmt_orderBy stmt = [oc] \<and> stmt_ds stmt = TableRefDS tr
           \<and> referencedTable e tr (Some db) = Inr table
           \<and> GetColumnByName table (sel_col (ord_sel oc)) = Inl err \<longrightarrow>
           SelectStmt_compileUsing e stmt (Some db) = Inl err)
      \<and> (stmt_orderBy stmt = [oc] \<and> stmt_ds stmt = TableRefDS tr
           \<and> referencedTable e tr (Some db) = Inr table
           \<and> GetColumnByName table (sel_col (ord_sel oc)) = Inr col \<longrightarrow>
           SelectStmt_compileUsing e stmt (Some db) =
             (if indexesByColID table (col_id col) = None then Inl ErrLimitedOrderBy
              else Inr (newTxSummary (Some db))))
      \<and> (stmt_orderBy stmt = [] \<longrightarrow>
           SelectStmt_compileUsing e stmt (Some db) = Inr (newTxSummary (Some db))))"
proof -
  have nodb: "SelectStmt_compileUsing e stmt None = Inl ErrNoDatabaseSelected"
    by (simp add: SelectStmt_compileUsing_def)
  have having: "SelectStmt_compileUsing e stmt (Some db) = Inl ErrHavingClauseRequiresGroupClause"
    if "stmt_groupBy stmt = None \<and> stmt_having stmt \<noteq> None"
    using that by (simp add: SelectStmt_compileUsing_def)
  have groupBy: "SelectStmt_compileUsing e stmt (Some db) = Inl ErrLimitedGroupBy"
    if "stmt_groupBy stmt = Some gs \<and> length gs > 1"
    using that by (simp add: SelectStmt_compileUsing_def slice_len_def)
  have orderBy: "SelectStmt_compileUsing e stmt (Some db) =
       (if length (stmt_orderBy stmt) > 1 then Inl ErrLimitedOrderBy
        else if length (stmt_orderBy stmt) > 0 then
          (case stmt_ds stmt of
             SelectDS sub \<Rightarrow> Inl ErrLimitedOrderBy
           | TableRefDS tableRef \<Rightarrow>
               (case referencedTable e tableRef (Some db) of
                  Inl err \<Rightarrow> Inl err
                | Inr table \<Rightarrow>
                    (case GetColumnByName table (sel_col (ord_sel (stmt_orderBy stmt ! 0))) of
                       Inl err \<Rightarrow> Inl err
                     | Inr col \<Rightarrow>
                         (case indexesByColID table (col_id col) of
                            None \<Rightarrow> Inl ErrLimitedOrderBy
                          | Some idxs \<Rightarrow> Inr (newTxSummary (Some db))))))
        else Inr (newTxSummary (Some db)))"
    if "stmt_groupBy stmt = None \<and> stmt_having stmt = None
        \<or> stmt_groupBy stmt = Some gs \<and> length gs \<le> 1"
    using that by (auto simp: SelectStmt_compileUsing_def slice_len_def)
  show ?thesis
  proof (intro conjI impI)
    show "SelectStmt_compileUsing e stmt None = Inl ErrNoDatabaseSelected" by (rule nodb)
  next
    assume "stmt_groupBy stmt = None \<and> stmt_having stmt \<noteq> None"
    then show "SelectStmt_compileUsing e stmt (Some db) = Inl ErrHavingClauseRequiresGroupClause"
      by (rule having)
  next
    assume "stmt_groupBy stmt = Some gs \<and> length gs > 1"
    then show "SelectStmt_compileUsing e stmt (Some db) = Inl ErrLimitedGroupBy"
      by (rule groupBy)
  next
    assume "stmt_groupBy stmt = None \<and> stmt_having stmt = None
        \<or> stmt_groupBy stmt = Some gs \<and> length gs \<le> 1"
      and "length (stmt_orderBy stmt) > 1"
    then show "SelectStmt_compileUsing e stmt (Some db) = Inl ErrLimitedOrderBy"
      by (simp add: orderBy)
  next
    assume "stmt_groupBy stmt = None \<and> stmt_having stmt = None
        \<or> stmt_groupBy stmt = Some gs \<and> length gs \<le> 1"
      and "stmt_orderBy stmt = [oc] \<and> stmt_ds stmt = SelectDS sub"
    then show "SelectStmt_compileUsing e stmt (Some db) = Inl ErrLimitedOrderBy"
      by (simp add: orderBy)
  next
    assume "stmt_groupBy stmt = None \<and> stmt_having stmt = None
        \<or> stmt_groupBy stmt = Some gs \<and> length gs \<le> 1"
      and "stmt_orderBy stmt = [oc] \<and> stmt_ds stmt = TableRefDS tr
           \<and> referencedTable e tr (Some db) = Inl err"
    then show "SelectStmt_compileUsing e stmt (Some db) = Inl err"
      by (simp add: orderBy)
  next
    assume "stmt_groupBy stmt = None \<and> stmt_having stmt = None
        \<or> stmt_groupBy stmt = Some gs \<and> length gs \<le> 1"
      and "stmt_orderBy stmt = [oc] \<and> stmt_ds stmt = TableRefDS tr
           \<and> referencedTable e tr (Some db) = Inr table
           \<and> GetColumnByName table (sel_col (ord_sel oc)) = Inl err"
    then show "SelectStmt_compileUsing e stmt (Some db) = Inl err"
      by (simp add: orderBy)
  next
    assume "stmt_groupBy stmt = None \<and> stmt_having stmt = None
        \<or> stmt_groupBy stmt = Some gs \<and> length gs \<le> 1"
      and "stmt_orderBy stmt = [oc] \<and> stmt_ds stmt = TableRefDS tr
           \<and> referencedTable e tr (Some db) = Inr table
           \<and> GetColumnByName table (sel_col (ord_sel oc)) = Inr col"
    then show "SelectStmt_compileUsing e stmt (Some db) =
             (if indexesByColID table (col_id col) = None then Inl ErrLimitedOrderBy
              else Inr (newTxSummary (Some db)))"
      by (auto simp: orderBy)
  next
    assume "stmt_groupBy stmt = None \<and> stmt_having stmt = None
        \<or> stmt_groupBy stmt = Some gs \<and> length gs \<le> 1"
      and "stmt_orderBy stmt = []"
    then show "SelectStmt_compileUsing e stmt (Some db) = Inr (newTxSummary (Some db))"
      by (simp add: orderBy)
  qed
qed

text \<open>
  On the table \<open>t\<close> of the fixtures: \<open>HAVING\<close> alone; \<open>GROUP BY a, name\<close>; \<open>ORDER BY a, id\<close>;
  \<open>ORDER BY a\<close> (no index on \<open>a\<close>); \<open>ORDER BY id\<close> on an unknown table and \<open>ORDER BY zz\<close> on
  \<open>t\<close> (the errors of the lookups); \<open>GROUP BY a HAVING true ORDER BY id\<close>; a plain \<open>SELECT\<close>;
  and \<open>HAVING\<close> with a \<open>groupBy\<close> slice that is empty and not nil.
\<close>

theorem SelectStmt_compileUsing_restrictions_witness:
  "SelectStmt_compileUsing testEngine
      (testSelect ''t'' None (Some (TV (Bool True))) []) (Some testDB)
     = Inl ErrHavingClauseRequiresGroupClause
   \<and> SelectStmt_compileUsing testEngine
      (testSelect ''t'' (Some [ColSelector [] [] ''a'' [], ColSelector [] [] ''name'' []]) None [])
      (Some testDB)
     = Inl ErrLimitedGroupBy
   \<and> SelectStmt_compileUsing testEngine
      (testSelect ''t'' None None [\<lparr>ord_sel = ColSelector [] [] ''a'' [], descOrder = False\<rparr>,
                           \<lparr>ord_sel = ColSelector [] [] ''id'' [], descOrder = False\<rparr>]) (Some testDB)
     = Inl ErrLimitedOrderBy
   \<and> SelectStmt_compileUsing testEngine
      (testSelect ''t'' None None [\<lparr>ord_sel = ColSelector [] [] ''a'' [], descOrder = False\<rparr>])
      (Some testDB)
     = Inl ErrLimitedOrderBy
   \<and> SelectStmt_compileUsing testEngine
      (testSelect ''nope'' None None [\<lparr>ord_sel = ColSelector [] [] ''id'' [], descOrder = False\<rparr>])
      (Some testDB)
     = Inl ErrTableDoesNotExist
   \<and> SelectStmt_compileUsing testEngine
      (testSelect ''t'' None None [\<lparr>ord_sel = ColSelector [] [] ''zz'' [], descOrder = False\<rparr>])
      (Some testDB)
     = Inl ErrColumnDoesNotExist
   \<and> SelectStmt_compileUsing testEngine
      (testSelect ''t'' (Some [ColSelector [] [] ''a'' []]) (Some (TV (Bool True)))
         [\<lparr>ord_sel = ColSelector [] [] ''id'' [], descOrder = False\<rparr>]) (Some testDB)
     = Inr (newTxSummary (Some testDB))
   \<and> SelectStmt_compileUsing testEngine (testSelect ''t'' None None []) (Some testDB)
     = Inr (newTxSummary (Some testDB))
   \<and> SelectStmt_compileUsing testEngine (testSelect ''t'' (Some []) (Some (TV (Bool True))) [])
      (Some testDB)
     = Inr (newTxSummary (Some testDB))"
  using
    SelectStmt_compileUsing_restrictions [where e = testEngine and db = testDB
      and stmt = "testSelect ''t'' None (Some (TV (Bool True))) []"]
    SelectStmt_compileUsing_restrictions [where e = testEngine and db = testDB
      and stmt = "testSelect ''t'' (Some [ColSelector [] [] ''a'' [], ColSelector [] [] ''name'' []])
                    None []"
      and gs = "[ColSelector [] [] ''a'' [], ColSelector [] [] ''name'' []]"]
    SelectStmt_compileUsing_restrictions [where e = testEngine and db = testDB
      and stmt = "testSelect ''t'' None None [\<lparr>ord_sel = ColSelector [] [] ''a'' [], descOrder = False\<rparr>,
                           \<lparr>ord_sel = ColSelector [] [] ''id'' [], descOrder = False\<rparr>]"]
    SelectStmt_compileUsing_restrictions [where e = testEngine and db = testDB
      and stmt = "testSelect ''t'' None None [\<lparr>ord_sel = ColSelector [] [] ''a'' [], descOrder = False\<rparr>]"
      and oc = "\<lparr>ord_sel = ColSelector [] [] ''a'' [], descOrder = False\<rparr>"
      and tr = "\<lparr>tr_db = [], tr_table = ''t'', tr_asBefore = 0, tr_as = []\<rparr>"
      and table = testTable and col = testColA]
    SelectStmt_compileUsing_restrictions [where e = testEngine and db = testDB
      and stmt = "testSelect ''nope'' None None
                    [\<lparr>ord_sel = ColSelector [] [] ''id'' [], descOrder = False\<rparr>]"
      and oc = "\<lparr>ord_sel = ColSelector [] [] ''id'' [], descOrder = False\<rparr>"
      and tr = "\<lparr>tr_db = [], tr_table = ''nope'', tr_asBefore = 0, tr_as = []\<rparr>"
      and err = ErrTableDoesNotExist]
    SelectStmt_compileUsing_restrictions [where e = testEngine and db = testDB
      and stmt = "testSelect ''t'' None None
                    [\<lparr>ord_sel = ColSelector [] [] ''zz'' [], descOrder = False\<rparr>]"
      and oc = "\<lparr>ord_sel = ColSelector [] [] ''zz'' [], descOrder = False\<rparr>"
      and tr = "\<lparr>tr_db = [], tr_table = ''t'', tr_asBefore = 0, tr_as = []\<rparr>"
      and table = testTable and err = ErrColumnDoesNotExist]
    SelectStmt_compileUsing_restrictions [where e = testEngine and db = testDB
      and stmt = "testSelect ''t'' (Some [ColSelector [] [] ''a'' []]) (Some (TV (Bool True)))
         [\<lparr>ord_sel = ColSelector [] [] ''id'' [], descOrder = False\<rparr>]"
      and gs = "[ColSelector [] [] ''a'' []]"
      and oc = "\<lparr>ord_sel = ColSelector [] [] ''id'' [], descOrder = False\<rparr>"
      and tr = "\<lparr>tr_db = [], tr_table = ''t'', tr_asBefore = 0, tr_as = []\<rparr>"
      and table = testTable and col = testColId]
    SelectStmt_compileUsing_restrictions [where e = testEngine and db = testDB
      and stmt = "testSelect ''t'' None None []"]
    SelectStmt_compileUsing_restrictions [where e = testEngine and db = testDB
      and stmt = "testSelect ''t'' (Some []) (Some (TV (Bool True))) []" and gs = "[]"]
  by (simp add: testSelect_def referencedTable_def GetTableByName_def
      testDB_def testTable_def GetColumnByName_def testColId_def testColA_def testColName_def)

subsection \<open>Ranges of \<open>AND\<close> and \<open>OR\<close>\<close>

text \<open>
  C5. \<open>selectorRanges\<close> is to intersect (refine) the ranges of the two sides of an \<open>AND\<close>
  column by column. Evaluated on \<open>a > 5 AND (a < 3 OR a < 10)\<close> over table \<open>t\<close> (column
  \<open>a\<close> has id 2), the code returns the range \<open>a < 10\<close> with no lower bound: the \<open>OR\<close>
  branch assigns its extended range to \<open>rangesByColID[colID]\<close> and so replaces the range
  \<open>a > 5\<close> that the left side of the \<open>AND\<close> had stored, instead of refining it. With the
  same two operands in the other order the result is the intersection \<open>5 < a < 10\<close>.
\<close>

theorem selectorRanges_and_or_overwrites:
  "selectorRanges testExt
     (BinBoolExp AND
        (CmpBoolExp GT (Sel (ColSelector [] [] ''a'' [])) (TV (Number 5)))
        (BinBoolExp OR
           (CmpBoolExp LT (Sel (ColSelector [] [] ''a'' [])) (TV (Number 3)))
           (CmpBoolExp LT (Sel (ColSelector [] [] ''a'' [])) (TV (Number 10)))))
     testTable ''t'' Map.empty []
   = Inr [(2, \<lparr>lRange = None, hRange = Some \<lparr>val = Number 10, inclusive = False\<rparr>\<rparr>)]
   \<and> selectorRanges testExt
     (BinBoolExp AND
        (BinBoolExp OR
           (CmpBoolExp LT (Sel (ColSelector [] [] ''a'' [])) (TV (Number 3)))
           (CmpBoolExp LT (Sel (ColSelector [] [] ''a'' [])) (TV (Number 10))))
        (CmpBoolExp GT (Sel (ColSelector [] [] ''a'' [])) (TV (Number 5))))
     testTable ''t'' Map.empty []
   = Inr [(2, \<lparr>lRange = Some \<lparr>val = Number 5, inclusive = False\<rparr>,
               hRange = Some \<lparr>val = Number 10, inclusive = False\<rparr>\<rparr>)]"
  by (simp add: matchingFunc_def testTable_def GetColumnByName_def testColId_def testColA_def
      testColName_def updateRangeFor_def extendWith_def refineWith_def maxSemiRange_def
      minSemiRange_def)

subsection \<open>The entries staged for one row\<close>

lemma sameKeyLoop_result:
  "sameKeyLoop e cur new cols same encs = Inr (same', encs') \<Longrightarrow>
   same' = (same \<and> (\<forall>col \<in> set cols. \<exists>cv. currValOf cur col = Some cv
                        \<and> Compare cv (newValOf new col) = Inr 0))
   \<and> encs' = encs @ map (\<lambda>col. fst (EncodeAsKey e (Value (the (currValOf cur col)))
                                       (colType col) (MaxLen e col))) cols"
proof (induction cols arbitrary: same encs)
  case Nil
  then show ?case by simp
next
  case (Cons col cols)
  from Cons.prems obtain cv r where cv: "currValOf cur col = Some cv"
    and r: "Compare cv (newValOf new col) = Inr r"
    and rest: "sameKeyLoop e cur new cols (same \<and> r = 0)
                 (encs @ [fst (EncodeAsKey e (Value cv) (colType col) (MaxLen e col))]) = Inr (same', encs')"
    by (auto simp: currValOf_def newValOf_def split: option.splits sum.splits)
  from Cons.IH [OF rest] cv r show ?case by auto
qed

lemma deleteIndexEntriesLoop_result:
  "deleteIndexEntriesLoop e pk cur new table idxs reusable ds = Inr (reusable', ds') \<Longrightarrow>
   reusable' = reusable @ map idx_id (filter (\<lambda>i. \<not> IsPrimary i \<and> sameIndexKey cur new i) idxs)
   \<and> ds' = ds @ map (tombstoneEntry e table cur pk)
                  (filter (\<lambda>i. \<not> IsPrimary i \<and> \<not> sameIndexKey cur new i) idxs)"
proof (induction idxs arbitrary: reusable ds)
  case Nil
  then show ?case by simp
next
  case (Cons index idxs)
  show ?case
  proof (cases "IsPrimary index")
    case True
    with Cons show ?thesis by simp
  next
    case False
    with Cons.prems obtain same encs where
      sk: "sameKeyLoop e cur new (idx_cols index) True
             [EncodeID e (tbl_db_id table), EncodeID e (tbl_id table), EncodeID e (idx_id index)]
           = Inr (same, encs)"
      by (auto split: sum.splits)
    note res = sameKeyLoop_result [OF sk]
    from res have same: "same = sameIndexKey cur new index"
      by (simp add: sameIndexKey_def)
    show ?thesis
    proof (cases same)
      case True
      with Cons.prems False sk
      have "deleteIndexEntriesLoop e pk cur new table idxs (reusable @ [idx_id index]) ds
            = Inr (reusable', ds')" by simp
      from Cons.IH [OF this] True same False show ?thesis by simp
    next
      case nsame: False
      let ?kv = "\<lparr>kv_Key = (if IsUnique index then mapKey e UIndexPrefix encs
                                      else mapKey e SIndexPrefix (encs @ [pk])),
                          kv_Value = (if IsUnique index then 1 # pk else [1]),
                          kv_Constraint = None\<rparr>"
      have kv: "?kv = tombstoneEntry e table cur pk index"
        using res by (simp add: tombstoneEntry_def indexKey_def)
      from Cons.prems False sk nsame
      have "deleteIndexEntriesLoop e pk cur new table idxs reusable (ds @ [?kv])
            = Inr (reusable', ds')" by simp
      then have "deleteIndexEntriesLoop e pk cur new table idxs reusable
                   (ds @ [tombstoneEntry e table cur pk index]) = Inr (reusable', ds')"
        by (simp only: kv)
      from Cons.IH [OF this] nsame same False show ?thesis by simp
    qed
  qed
qed

lemma encodeIndexCols_result:
  "encodeIndexCols e vals cols encs = Inr encs' \<Longrightarrow>
   encs' = encs @ map (\<lambda>col. fst (EncodeAsKey e (Value (newValOf vals col)) (colType col) (MaxLen e col))) cols"
proof (induction cols arbitrary: encs)
  case Nil
  then show ?case by simp
next
  case (Cons col cols)
  then show ?case
    by (fastforce simp: newValOf_def split: prod.splits option.splits if_splits)
qed

lemma secondaryLoop_result:
  "secondaryLoop e pk vals table reusable idxs ds = Inr ds' \<Longrightarrow>
   ds' = ds @ map (liveEntry e table vals pk)
                  (filter (\<lambda>i. \<not> IsPrimary i \<and> idx_id i \<notin> set reusable) idxs)"
proof (induction idxs arbitrary: ds)
  case Nil
  then show ?case by simp
next
  case (Cons index idxs)
  show ?case
  proof (cases "IsPrimary index \<or> idx_id index \<in> set reusable")
    case True
    with Cons.prems have "secondaryLoop e pk vals table reusable idxs ds = Inr ds'"
      by (cases "IsPrimary index") (simp_all split: if_splits)
    from Cons.IH [OF this] True show ?thesis by auto
  next
    case False
    with Cons.prems obtain encs where
      enc: "encodeIndexCols e vals (idx_cols index)
              [EncodeID e (tbl_db_id table), EncodeID e (tbl_id table), EncodeID e (idx_id index)]
            = Inr encs"
      by (auto split: sum.splits)
    let ?kv = "\<lparr>kv_Key = (if IsUnique index then mapKey e UIndexPrefix encs
                                    else mapKey e SIndexPrefix (encs @ [pk])),
                        kv_Value = (if IsUnique index then 0 # pk else [0]),
                        kv_Constraint = (if IsUnique index then Some DeletedOrMustNotExist else None)\<rparr>"
    have kv: "?kv = liveEntry e table vals pk index"
      using encodeIndexCols_result [OF enc] by (simp add: liveEntry_def indexKey_def)
    from Cons.prems False enc
    have "secondaryLoop e pk vals table reusable idxs (ds @ [?kv]) = Inr ds'" by simp
    then have "secondaryLoop e pk vals table reusable idxs
                 (ds @ [liveEntry e table vals pk index]) = Inr ds'"
      by (simp only: kv)
    from Cons.IH [OF this] False show ?thesis by simp
  qed
qed

lemma set_rangeOver: "set (rangeOver rank idxs) = set idxs"
  by (simp add: rangeOver_def)

lemma rangeOver_any_order:
  assumes "distinct ys" and "distinct xs" and "set ys = set xs"
  shows "\<exists>rank. rangeOver rank xs = ys"
proof -
  define f where "f = (\<lambda>x. length (takeWhile (\<lambda>y. y \<noteq> x) ys))"
  have lt: "f x < length ys" if "x \<in> set ys" for x
    using that unfolding f_def by (induction ys) auto
  have nth: "ys ! f x = x" if "x \<in> set ys" for x
    using nth_length_takeWhile [of "\<lambda>y. y \<noteq> x" ys] lt [OF that] by (simp add: f_def)
  have inj: "inj_on f (set ys)"
    by (rule inj_onI) (metis nth)
  have fi: "f (ys ! i) = i" if "i < length ys" for i
    using that nth [of "ys ! i"] lt [of "ys ! i"] assms(1)
    by (simp add: nth_eq_iff_index_eq)
  have m: "map f ys = [0..<length ys]"
    by (rule nth_equalityI) (simp_all add: fi)
  have s1: "sorted (map f ys)" and d1: "distinct (map f ys)" by (simp_all add: m)
  have s2: "sorted (map f (sort_key f xs))" by simp
  have d2: "distinct (map f (sort_key f xs))"
    using inj assms by (simp add: distinct_map)
  have "map f (sort_key f xs) = map f ys"
    by (rule sorted_distinct_set_unique [OF s2 d2 s1 d1]) (simp add: assms)
  then have "sort_key f xs = ys"
    using inj assms by (simp add: inj_on_map_eq_map)
  then show ?thesis by (auto simp: rangeOver_def)
qed

lemma compileRowTail_result:
  assumes "compileRowTail e stmt visits table vals summary = Inr summary'"
  shows "\<exists>pk valbuf reusable tombs.
           encodePK e vals (idx_cols (primaryIndex table)) [] = Inr pk
         \<and> payloadLoop e vals (tbl_cols table) (be32 (of_nat (length vals))) = Inr valbuf
         \<and> (if \<not> isInsert stmt \<and> length (indexes table) > 1
             then (case fetchPKRow e table vals of
                     Inl err \<Rightarrow> err = ErrNoMoreRows \<and> reusable = [] \<and> tombs = []
                   | Inr currPKRow \<Rightarrow>
                       reusable = map idx_id (filter (\<lambda>i. \<not> IsPrimary i
                                     \<and> sameIndexKey (currValues table currPKRow) vals i)
                                   (rangeOver (fst visits) (indexes table)))
                     \<and> tombs = map (tombstoneEntry e table (currValues table currPKRow) pk)
                                 (filter (\<lambda>i. \<not> IsPrimary i
                                     \<and> \<not> sameIndexKey (currValues table currPKRow) vals i)
                                   (rangeOver (fst visits) (indexes table))))
             else reusable = [] \<and> tombs = [])
         \<and> summary' = summary
              \<lparr>des := des summary @ tombs
                        @ [primaryEntry e table pk valbuf (pkConstraint stmt table)]
                        @ map (liveEntry e table vals pk)
                            (filter (\<lambda>i. \<not> IsPrimary i \<and> idx_id i \<notin> set reusable)
                               (rangeOver (snd visits) (indexes table))),
               updatedRows := updatedRows summary + 1\<rparr>"
proof -
  from assms obtain pk where pk: "encodePK e vals (idx_cols (primaryIndex table)) [] = Inr pk"
    by (auto simp: compileRowTail_def split: sum.splits)
  let ?del = "(if \<not> isInsert stmt \<and> length (indexes table) > 1 then
                   (case fetchPKRow e table vals of
                      Inl err \<Rightarrow> (if err = ErrNoMoreRows then Inr ([], des summary) else Inl err)
                    | Inr currPKRow \<Rightarrow>
                        deleteIndexEntriesFor e (fst visits) pk (currValues table currPKRow) vals
                          table (des summary))
                 else Inr ([], des summary))"
  from assms pk obtain reusable ds1 where del: "?del = Inr (reusable, ds1)"
    by (auto simp: compileRowTail_def split: sum.splits)
  from assms pk del obtain valbuf where
    pl: "payloadLoop e vals (tbl_cols table) (be32 (of_nat (length vals))) = Inr valbuf"
    by (auto simp: compileRowTail_def split: sum.splits)
  from assms pk del pl obtain ds2 where
    sec: "secondaryLoop e pk vals table reusable (rangeOver (snd visits) (indexes table))
            (ds1 @ [primaryEntry e table pk valbuf (pkConstraint stmt table)]) = Inr ds2"
    and s': "summary' = summary\<lparr>des := ds2, updatedRows := updatedRows summary + 1\<rparr>"
    by (auto simp: compileRowTail_def primaryEntry_def split: sum.splits)
  note ds2 = secondaryLoop_result [OF sec]
  obtain tombs where ds1: "ds1 = des summary @ tombs"
    and tr: "(if \<not> isInsert stmt \<and> length (indexes table) > 1
             then (case fetchPKRow e table vals of
                     Inl err \<Rightarrow> err = ErrNoMoreRows \<and> reusable = [] \<and> tombs = []
                   | Inr currPKRow \<Rightarrow>
                       reusable = map idx_id (filter (\<lambda>i. \<not> IsPrimary i
                                     \<and> sameIndexKey (currValues table currPKRow) vals i)
                                   (rangeOver (fst visits) (indexes table)))
                     \<and> tombs = map (tombstoneEntry e table (currValues table currPKRow) pk)
                                 (filter (\<lambda>i. \<not> IsPrimary i
                                     \<and> \<not> sameIndexKey (currValues table currPKRow) vals i)
                                   (rangeOver (fst visits) (indexes table))))
             else reusable = [] \<and> tombs = [])"
  proof (cases "\<not> isInsert stmt \<and> length (indexes table) > 1")
    case False
    with del have "reusable = [] \<and> ds1 = des summary" by auto
    with False that [of "[]"] show ?thesis by auto
  next
    case True
    show ?thesis
    proof (cases "fetchPKRow e table vals")
      case (Inl err)
      with del True have "err = ErrNoMoreRows \<and> reusable = [] \<and> ds1 = des summary"
        by (auto split: if_splits)
      with True Inl that [of "[]"] show ?thesis by auto
    next
      case (Inr currPKRow)
      with del True have
        "deleteIndexEntriesLoop e pk (currValues table currPKRow) vals table
           (rangeOver (fst visits) (indexes table)) [] (des summary) = Inr (reusable, ds1)"
        by (simp add: deleteIndexEntriesFor_def)
      from deleteIndexEntriesLoop_result [OF this] True Inr
        that [of "map (tombstoneEntry e table (currValues table currPKRow) pk)
                                 (filter (\<lambda>i. \<not> IsPrimary i
                                     \<and> \<not> sameIndexKey (currValues table currPKRow) vals i)
                                   (rangeOver (fst visits) (indexes table)))"]
      show ?thesis by auto
    qed
  qed
  from pk pl tr s' ds2 ds1 show ?thesis
    by (intro exI [of _ pk] exI [of _ valbuf] exI [of _ reusable] exI [of _ tombs]) simp
qed

lemma pkConstraint_matrix:
  "pkConstraint stmt table = constraintMatrix (isInsert stmt) (autoIncrementPK table)"
  by (cases "isInsert stmt"; cases "autoIncrementPK table") (simp_all add: pkConstraint_def)

lemma reusable_filter:
  assumes "inj_on idx_id (set ys)" and "set xs = set ys"
  shows "filter (\<lambda>i. \<not> IsPrimary i
                   \<and> idx_id i \<notin> set (map idx_id (filter (\<lambda>j. \<not> IsPrimary j \<and> P j) xs))) ys
         = filter (\<lambda>i. \<not> IsPrimary i \<and> \<not> P i) ys"
proof (rule filter_cong [OF refl])
  fix x assume x: "x \<in> set ys"
  have "idx_id x \<in> set (map idx_id (filter (\<lambda>j. \<not> IsPrimary j \<and> P j) xs))
        \<longleftrightarrow> (\<not> IsPrimary x \<and> P x)"
    using assms x by (auto simp: inj_on_def)
  then show "(\<not> IsPrimary x
                \<and> idx_id x \<notin> set (map idx_id (filter (\<lambda>j. \<not> IsPrimary j \<and> P j) xs)))
             = (\<not> IsPrimary x \<and> \<not> P x)"
    by auto
qed

lemma compileRow_success:
  assumes "compileRow e stmt params implicitDB selPos visits row table mutated summary = (Inr summary', table', mutated')"
  shows "\<exists>vals0. valuesLoop e stmt params implicitDB table selPos row (tbl_cols table) [] = Inr vals0
          \<and> length row = length (ups_cols stmt)
          \<and> (if isInsert stmt \<and> autoIncrementPK table
              then \<exists>pkCol others. idx_cols (primaryIndex table) = pkCol # others
                     \<and> table' = table\<lparr>maxPK := maxPK table + 1\<rparr> \<and> mutated'
                     \<and> compileRowTail e stmt visits table'
                          (assign (col_id pkCol) (Number (maxPK table + 1)) vals0)
                          (summary\<lparr>lastInsertedPKs :=
                                     assign (tbl_name table) (maxPK table + 1) (lastInsertedPKs summary)\<rparr>)
                        = Inr summary'
              else table' = table \<and> mutated' = mutated
                     \<and> compileRowTail e stmt visits table vals0 summary = Inr summary')"
  using assms
  by (auto simp: compileRow_def split: if_splits sum.splits list.splits)

lemmas u_defs = uEngine_def uStmt_def uTable_def uDB_def uRow_def uColId_def uColEmail_def
  uColTag_def uPK_def uIdxEmail_def uIdxTag_def uSelPos_def uRowSpec_def uVals_def testExt_def

lemmas enc_defs = spec_EncodeAsKey_def spec_EncodeValue_def spec_mapKey_def spec_MaxLen_def
  spec_rawBytes_def be32_def be64_def bytes_of_def PIndexPrefix_def UIndexPrefix_def
  SIndexPrefix_def PKIndexID_def IsPrimary_def IsUnique_def
  IntegerType_def VarcharType_def BooleanType_def TimestampType_def BLOBType_def

lemma replicate_numeral: "replicate (numeral k) x = x # replicate (pred_numeral k) x"
  by (simp add: numeral_eq_Suc)

lemma u_valuesLoop:
  "valuesLoop uEngine (uStmt False) Map.empty uDB uTable uSelPos uRowSpec (tbl_cols uTable) [] = Inr uVals"
  by (simp add: u_defs)

lemma u_compileRow:
  "compileRow uEngine (uStmt False) Map.empty uDB uSelPos (listOrder, listOrder) uRowSpec uTable False
     (newTxSummary (Some uDB))
   = (Inr uSummary, uTable, False)"
  by (simp add: compileRow_def compileRowTail_def fetchPKRow_def deleteIndexEntriesFor_def
      rangeOver_def listOrder_def pointRange_def
      currValues_def EncodeSelector_def pkConstraint_def newTxSummary_def uSummary_def u_defs enc_defs
      replicate_numeral)

lemma u_compileUsing:
  "UpsertIntoStmt_compileUsing uEngine (uStmt False) (\<lambda>n. (listOrder, listOrder)) (Some uDB)
     Map.empty False
   = (Inr uSummary, Some (uTable, False))"
proof -
  have rt: "referencedTable uEngine (ups_tableRef (uStmt False)) (Some uDB) = Inr uTable"
    by (simp add: referencedTable_def GetTableByName_def uStmt_def uDB_def uTable_def)
  have v: "validate (uStmt False) uTable = Inr uSelPos"
    by (simp add: validate_def GetColumnByName_def u_defs)
  have rows: "ups_rows (uStmt False) = [uRowSpec]"
    by (simp add: uStmt_def uRowSpec_def)
  show ?thesis
    by (simp add: UpsertIntoStmt_compileUsing_def rt v rows u_compileRow)
qed

lemma u2_valuesLoop:
  "valuesLoop uEngine (uStmt False) Map.empty uDB uTable uSelPos uRowSpec2 (tbl_cols uTable) []
   = Inr uVals2"
  by (simp add: u_defs uRowSpec2_def uVals2_def)

lemma u2_fetch: "fetchPKRow uEngine uTable uVals2 = Inr uRow"
  by (simp add: fetchPKRow_def pointRange_def u_defs uVals2_def)

lemma u2_compileRow:
  "compileRow uEngine (uStmt False) Map.empty uDB uSelPos (listOrder, index1Last) uRowSpec2 uTable False
     (newTxSummary (Some uDB))
   = (Inr uSummary2, uTable, False)"
  by (simp add: compileRow_def compileRowTail_def fetchPKRow_def deleteIndexEntriesFor_def
      rangeOver_def listOrder_def index1Last_def pointRange_def uRowSpec2_def
      currValues_def EncodeSelector_def pkConstraint_def newTxSummary_def uSummary2_def u_defs enc_defs
      replicate_numeral)

lemma compileRow_tail:
  assumes "compileRow e stmt params implicitDB selPos visits row table mutated summary = (Inr summary', table', mutated')"
  shows "\<exists>vals summary0.
           compileRowTail e stmt visits table' vals summary0 = Inr summary'
         \<and> des summary0 = des summary
         \<and> indexes table' = indexes table
         \<and> autoIncrementPK table' = autoIncrementPK table"
  using compileRow_success [OF assms]
  by (cases "isInsert stmt \<and> autoIncrementPK table") (auto, force+)

subsection \<open>Constraints of the staged entries\<close>

text \<open>
  C2, as the claim states it, fails in its last part: not every entry emitted for a unique
  secondary index carries \<open>deletedOrMustNotExist\<close>. Compiling
  \<open>UPSERT INTO u (id, email, tag) VALUES (1, 'b', 'r')\<close> over a store that holds the row
  \<open>(1, 'a', 'r')\<close> stages, as its first entry, the tombstone of the old key of the unique
  index on \<open>email\<close> (key prefix \<open>U.\<close>, leading value byte 1), and that entry carries no
  constraint.
\<close>

theorem upsert_unique_tombstone_counterexample:
  "UpsertIntoStmt_compileUsing uEngine (uStmt False) (\<lambda>n. (listOrder, listOrder)) (Some uDB)
       Map.empty False
     = (Inr uSummary, Some (uTable, False))
   \<and> take 2 (kv_Key (des uSummary ! 0)) = bytes_of UIndexPrefix
   \<and> kv_Value (des uSummary ! 0) ! 0 = 1
   \<and> kv_Constraint (des uSummary ! 0) = None"
  using u_compileUsing by (simp add: uSummary_def bytes_of_def UIndexPrefix_def)

text \<open>
  C2, amended. When an \<open>UPSERT\<close>/\<open>INSERT\<close> row is compiled, the entries it stages are the
  tombstones (if any), the primary entry and the live entries of secondary indexes, in this
  order. The constraint of the primary entry is determined exactly by the statement kind and
  by whether the primary key is auto-incremental: \<open>INSERT\<close> without auto-increment attaches
  \<open>deletedOrMustNotExist\<close>, \<open>INSERT\<close> with auto-increment none, \<open>UPSERT\<close> without
  auto-increment none, \<open>UPSERT\<close> with auto-increment \<open>MustExist\<close> (\<open>constraintMatrix\<close>).
  Every live entry (leading value byte 0) emitted for a unique secondary index carries
  \<open>deletedOrMustNotExist\<close>, and a live entry of a non-unique index none; the tombstone entries
  (leading value byte 1) of secondary indexes, unique or not, carry no constraint.
\<close>

theorem row_constraints:
  assumes ok: "compileRow e stmt params implicitDB selPos visits row table mutated summary
                 = (Inr summary', table', mutated')"
  shows "\<exists>vals pk valbuf tombs idxs.
           des summary' =
             des summary @ tombs
             @ [primaryEntry e table' pk valbuf
                  (constraintMatrix (isInsert stmt) (autoIncrementPK table))]
             @ map (liveEntry e table' vals pk) idxs
         \<and> (\<forall>kv \<in> set tombs. kv_Constraint kv = None \<and> kv_Value kv ! 0 = 1
               \<and> (\<exists>i \<in> set (indexes table). \<not> IsPrimary i
                      \<and> (\<exists>cur. kv = tombstoneEntry e table' cur pk i)))
         \<and> (\<forall>i \<in> set idxs. i \<in> set (indexes table) \<and> \<not> IsPrimary i)
         \<and> (\<forall>i. kv_Value (liveEntry e table' vals pk i) ! 0 = 0
                \<and> kv_Constraint (liveEntry e table' vals pk i) =
                    (if IsUnique i then Some DeletedOrMustNotExist else None))"
proof -
  from compileRow_tail [OF ok] obtain vals summary0 where
    tail: "compileRowTail e stmt visits table' vals summary0 = Inr summary'"
    and d0: "des summary0 = des summary"
    and ix: "indexes table' = indexes table"
    and ai: "autoIncrementPK table' = autoIncrementPK table"
    by blast
  from compileRowTail_result [OF tail] obtain pk valbuf reusable tombs where
    tr: "(if \<not> isInsert stmt \<and> length (indexes table') > 1
             then (case fetchPKRow e table' vals of
                     Inl err \<Rightarrow> err = ErrNoMoreRows \<and> reusable = [] \<and> tombs = []
                   | Inr currPKRow \<Rightarrow>
                       reusable = map idx_id (filter (\<lambda>i. \<not> IsPrimary i
                                     \<and> sameIndexKey (currValues table' currPKRow) vals i)
                                   (rangeOver (fst visits) (indexes table')))
                     \<and> tombs = map (tombstoneEntry e table' (currValues table' currPKRow) pk)
                                 (filter (\<lambda>i. \<not> IsPrimary i
                                     \<and> \<not> sameIndexKey (currValues table' currPKRow) vals i)
                                   (rangeOver (fst visits) (indexes table'))))
             else reusable = [] \<and> tombs = [])"
    and s': "summary' = summary0
              \<lparr>des := des summary0 @ tombs
                        @ [primaryEntry e table' pk valbuf (pkConstraint stmt table')]
                        @ map (liveEntry e table' vals pk)
                            (filter (\<lambda>i. \<not> IsPrimary i \<and> idx_id i \<notin> set reusable)
                               (rangeOver (snd visits) (indexes table'))),
               updatedRows := updatedRows summary0 + 1\<rparr>"
    by blast
  have tombs: "\<forall>kv \<in> set tombs. kv_Constraint kv = None \<and> kv_Value kv ! 0 = 1
               \<and> (\<exists>i \<in> set (indexes table). \<not> IsPrimary i
                      \<and> (\<exists>cur. kv = tombstoneEntry e table' cur pk i))"
    using tr ix
    by (auto simp: tombstoneEntry_def set_rangeOver split: if_splits sum.splits)
  show ?thesis
    apply (rule exI [of _ vals], rule exI [of _ pk], rule exI [of _ valbuf], rule exI [of _ tombs])
    apply (rule exI [of _ "filter (\<lambda>i. \<not> IsPrimary i \<and> idx_id i \<notin> set reusable)
                             (rangeOver (snd visits) (indexes table'))"])
    using s' d0 ix ai tombs
    apply (simp add: pkConstraint_matrix liveEntry_def set_rangeOver)
    done
qed

theorem row_constraints_witness:
  "\<exists>vals pk valbuf tombs idxs.
           des uSummary =
             des (newTxSummary (Some uDB)) @ tombs
             @ [primaryEntry uEngine uTable pk valbuf
                  (constraintMatrix (isInsert (uStmt False)) (autoIncrementPK uTable))]
             @ map (liveEntry uEngine uTable vals pk) idxs
         \<and> (\<forall>kv \<in> set tombs. kv_Constraint kv = None \<and> kv_Value kv ! 0 = 1
               \<and> (\<exists>i \<in> set (indexes uTable). \<not> IsPrimary i
                      \<and> (\<exists>cur. kv = tombstoneEntry uEngine uTable cur pk i)))
         \<and> (\<forall>i \<in> set idxs. i \<in> set (indexes uTable) \<and> \<not> IsPrimary i)
         \<and> (\<forall>i. kv_Value (liveEntry uEngine uTable vals pk i) ! 0 = 0
                \<and> kv_Constraint (liveEntry uEngine uTable vals pk i) =
                    (if IsUnique i then Some DeletedOrMustNotExist else None))"
  by (rule row_constraints [OF u_compileRow])

subsection \<open>Tombstones of changed index keys\<close>

lemma map_of_assign: "map_of (assign k v m) k' = (if k' = k then Some v else map_of m k')"
  by (induction m) auto

lemma fst_set_assign: "fst ` set (assign k v m) = insert k (fst ` set m)"
  by (induction m) (force split: if_splits)+

lemma encodePK_present:
  "encodePK e vals cols buf = Inr pk \<Longrightarrow> \<forall>col \<in> set cols. map_of vals (col_id col) \<noteq> None"
  by (induction cols arbitrary: buf) (auto split: option.splits prod.splits if_splits)

lemma encodePK_result:
  "encodePK e vals cols buf = Inr pk \<Longrightarrow>
   pk = buf @ concat (map (\<lambda>col. fst (EncodeAsKey e (Value (newValOf vals col)) (colType col)
                                        (MaxLen e col))) cols)"
proof (induction cols arbitrary: buf)
  case Nil
  then show ?case by simp
next
  case (Cons col cols)
  from Cons.prems obtain rval encVal where
    rv: "map_of vals (col_id col) = Some rval"
    and enc: "EncodeAsKey e (Value rval) (colType col) (MaxLen e col) = (encVal, None)"
    and rest: "encodePK e vals cols (buf @ encVal) = Inr pk"
    by (auto split: option.splits prod.splits if_splits)
  from Cons.IH [OF rest] rv enc show ?case by (simp add: newValOf_def)
qed

lemma pkRangesLoop_map_of:
  assumes "\<forall>col \<in> set cols. map_of vals (col_id col) \<noteq> None"
  shows "map_of (pkRangesLoop vals cols acc) c =
           (if c \<in> col_id ` set cols then Some (pointRange (the (map_of vals c)))
            else map_of acc c)"
  using assms
proof (induction cols arbitrary: acc)
  case Nil
  then show ?case by simp
next
  case (Cons col cols)
  from Cons.prems obtain v where v: "map_of vals (col_id col) = Some v" by auto
  from Cons.prems have rest: "\<forall>col \<in> set cols. map_of vals (col_id col) \<noteq> None" by simp
  show ?case
    using Cons.IH [OF rest, of "assign (col_id col) (pointRange v) acc"] v
    by (auto simp: map_of_assign pointRange_def)
qed

lemma pkRangesLoop_keys:
  assumes "\<forall>col \<in> set cols. map_of vals (col_id col) \<noteq> None"
  shows "fst ` set (pkRangesLoop vals cols acc) = fst ` set acc \<union> col_id ` set cols"
  using assms
proof (induction cols arbitrary: acc)
  case Nil
  then show ?case by simp
next
  case (Cons col cols)
  from Cons.prems obtain v where v: "map_of vals (col_id col) = Some v" by auto
  from Cons.prems have rest: "\<forall>col \<in> set cols. map_of vals (col_id col) \<noteq> None" by simp
  show ?case
    using Cons.IH [OF rest, of "assign (col_id col) (pointRange v) acc"] v
    by (auto simp: fst_set_assign pointRange_def)
qed

lemma fetchPKRow_samePK:
  assumes pk: "encodePK e vals (idx_cols (primaryIndex table)) [] = Inr pk"
    and fetch: "fetchPKRow e table vals = Inr currPKRow"
  shows "\<exists>rs. samePKRanges table vals rs \<and> WaitForIndexingUpto e = None
              \<and> rawRead e table (tbl_name table) rs = Inr currPKRow"
proof -
  let ?rs = "pkRangesLoop vals (idx_cols (primaryIndex table)) []"
  note present = encodePK_present [OF pk]
  from fetch have w: "WaitForIndexingUpto e = None"
    and r: "rawRead e table (tbl_name table) ?rs = Inr currPKRow"
    by (auto simp: fetchPKRow_def split: option.splits)
  have "map_of ?rs (col_id col) = Some (pointRange (newValOf vals col))"
    if "col \<in> set (idx_cols (primaryIndex table))" for col
    using that present by (auto simp: pkRangesLoop_map_of [OF present] newValOf_def)
  moreover have "fst ` set ?rs \<subseteq> col_id ` set (idx_cols (primaryIndex table))"
    by (simp add: pkRangesLoop_keys [OF present])
  ultimately have "samePKRanges table vals ?rs" by (simp add: samePKRanges_def)
  with w r show ?thesis by blast
qed

lemma foldl_assign_other:
  "k \<notin> kf ` set xs \<Longrightarrow> map_of (foldl (\<lambda>m c. assign (kf c) (vf c) m) acc xs) k = map_of acc k"
  by (induction xs arbitrary: acc) (auto simp: map_of_assign)

lemma foldl_assign_map_of:
  "distinct (map kf xs) \<Longrightarrow> x \<in> set xs \<Longrightarrow>
   map_of (foldl (\<lambda>m c. assign (kf c) (vf c) m) acc xs) (kf x) = Some (vf x)"
proof (induction xs arbitrary: acc)
  case Nil
  then show ?case by simp
next
  case (Cons a xs)
  show ?case
  proof (cases "x = a")
    case True
    with Cons.prems have "kf a \<notin> kf ` set xs" by auto
    from foldl_assign_other [OF this, of vf "assign (kf a) (vf a) acc"] True
    show ?thesis by (simp add: map_of_assign)
  next
    case False
    with Cons.prems have "distinct (map kf xs)" "x \<in> set xs" by auto
    from Cons.IH [OF this] show ?thesis by simp
  qed
qed

lemma currValues_old:
  assumes "distinct (map col_id (tbl_cols table))" and "col \<in> set (tbl_cols table)"
  shows "currValOf (currValues table currPKRow) col = oldValOf table currPKRow col"
  using foldl_assign_map_of [OF assms,
      of "\<lambda>col. Values currPKRow (EncodeSelector [] (tbl_db_name table) (tbl_name table) (colName col))" "[]"]
  by (simp add: currValOf_def currValues_def oldValOf_def)

text \<open>
  C3. For every \<open>UPSERT\<close> (not an \<open>INSERT\<close>) into a table that has at least one secondary
  index (index ids being distinct), when a row with the same primary key already exists and the
  row compiles. The row that exists is the one the raw reader of the table returns when every
  primary-key column is pinned to the value the new row has for it, and the old value of a
  column is what that row holds under the column's selector. For each secondary index, if the
  old and new index-column values compare equal, no entry is emitted for that index (neither
  tombstone nor live entry: the slot is reusable); otherwise a tombstone entry (leading value
  byte 1) keyed by the old index-column values is appended to the staged data entries, followed
  (after the primary entry) by a new live entry (leading value byte 0) keyed by the new
  index-column values. The tombstones come in the order in which the deleting loop visits the
  indexes, the live entries in the order in which the creating loop visits them; the two orders
  are independent.
\<close>

theorem upsert_index_entries:
  assumes upsert: "\<not> isInsert stmt"
    and secondary: "length (indexes table) > 1"
    and ids: "distinct (map idx_id (indexes table))"
    and vals: "valuesLoop e stmt params implicitDB table selPos row (tbl_cols table) [] = Inr vals"
    and exists: "fetchPKRow e table vals = Inr currPKRow"
    and ok: "compileRow e stmt params implicitDB selPos (delVisit, newVisit) row table mutated summary
               = (Inr summary', table', mutated')"
  shows "\<exists>pk pke rs.
           samePKRanges table vals rs
         \<and> WaitForIndexingUpto e = None
         \<and> rawRead e table (tbl_name table) rs = Inr currPKRow
         \<and> (distinct (map col_id (tbl_cols table)) \<longrightarrow>
              (\<forall>col \<in> set (tbl_cols table).
                 currValOf (currValues table currPKRow) col = oldValOf table currPKRow col))
         \<and> encodePK e vals (idx_cols (primaryIndex table)) [] = Inr pk
         \<and> pk = pkOf e table vals
         \<and> des summary' =
             des summary
             @ map (tombstoneEntry e table (currValues table currPKRow) pk)
                 (filter (\<lambda>i. \<not> IsPrimary i \<and> \<not> sameIndexKey (currValues table currPKRow) vals i)
                    (rangeOver delVisit (indexes table)))
             @ [pke]
             @ map (liveEntry e table vals pk)
                 (filter (\<lambda>i. \<not> IsPrimary i \<and> \<not> sameIndexKey (currValues table currPKRow) vals i)
                    (rangeOver newVisit (indexes table)))
         \<and> (\<forall>i. kv_Value (tombstoneEntry e table (currValues table currPKRow) pk i) ! 0 = 1
                \<and> kv_Value (liveEntry e table vals pk i) ! 0 = 0)"
proof -
  let ?same = "sameIndexKey (currValues table currPKRow) vals"
  from compileRow_success [OF ok] upsert vals
  have tail: "compileRowTail e stmt (delVisit, newVisit) table vals summary = Inr summary'" by auto
  from compileRowTail_result [OF tail] upsert secondary exists
  obtain pk valbuf where pk: "encodePK e vals (idx_cols (primaryIndex table)) [] = Inr pk"
    and s': "summary' = summary
              \<lparr>des := des summary
                  @ map (tombstoneEntry e table (currValues table currPKRow) pk)
                      (filter (\<lambda>i. \<not> IsPrimary i \<and> \<not> ?same i) (rangeOver delVisit (indexes table)))
                  @ [primaryEntry e table pk valbuf (pkConstraint stmt table)]
                  @ map (liveEntry e table vals pk)
                      (filter (\<lambda>i. \<not> IsPrimary i
                           \<and> idx_id i \<notin> set (map idx_id (filter (\<lambda>i. \<not> IsPrimary i \<and> ?same i)
                                                             (rangeOver delVisit (indexes table)))))
                         (rangeOver newVisit (indexes table))),
               updatedRows := updatedRows summary + 1\<rparr>"
    by auto
  from ids have inj: "inj_on idx_id (set (rangeOver newVisit (indexes table)))"
    by (simp add: distinct_map set_rangeOver)
  have sets: "set (rangeOver delVisit (indexes table)) = set (rangeOver newVisit (indexes table))"
    by (simp add: set_rangeOver)
  note lives = reusable_filter [OF inj sets, of ?same]
  from fetchPKRow_samePK [OF pk exists] obtain rs where
    rs: "samePKRanges table vals rs" and w: "WaitForIndexingUpto e = None"
    and rd: "rawRead e table (tbl_name table) rs = Inr currPKRow"
    by blast
  have old: "distinct (map col_id (tbl_cols table)) \<longrightarrow>
              (\<forall>col \<in> set (tbl_cols table).
                 currValOf (currValues table currPKRow) col = oldValOf table currPKRow col)"
    by (simp add: currValues_old)
  have pkv: "pk = pkOf e table vals"
    using encodePK_result [OF pk] by (simp add: pkOf_def)
  have bytes: "\<forall>i. kv_Value (tombstoneEntry e table (currValues table currPKRow) pk i) ! 0 = 1
                \<and> kv_Value (liveEntry e table vals pk i) ! 0 = 0"
    by (simp add: tombstoneEntry_def liveEntry_def)
  have d: "des summary' =
             des summary
             @ map (tombstoneEntry e table (currValues table currPKRow) pk)
                 (filter (\<lambda>i. \<not> IsPrimary i \<and> \<not> ?same i) (rangeOver delVisit (indexes table)))
             @ [primaryEntry e table pk valbuf (pkConstraint stmt table)]
             @ map (liveEntry e table vals pk)
                 (filter (\<lambda>i. \<not> IsPrimary i \<and> \<not> ?same i) (rangeOver newVisit (indexes table)))"
    using s' lives by simp
  from rs w rd old pk pkv d bytes show ?thesis by blast
qed

text \<open>
  On the table \<open>u\<close> of the fixtures, whose store holds the row \<open>(1, 'a', 'r')\<close>:
  \<open>UPSERT INTO u (id, email, tag) VALUES (1, 'b', 's')\<close>, with the deleting loop visiting the
  indexes in the order \<open>email\<close>, \<open>tag\<close> and the creating loop in the order \<open>tag\<close>,
  \<open>email\<close>.
\<close>

theorem upsert_index_entries_witness:
  "\<exists>pk pke rs.
           samePKRanges uTable uVals2 rs
         \<and> WaitForIndexingUpto uEngine = None
         \<and> rawRead uEngine uTable (tbl_name uTable) rs = Inr uRow
         \<and> (distinct (map col_id (tbl_cols uTable)) \<longrightarrow>
              (\<forall>col \<in> set (tbl_cols uTable).
                 currValOf (currValues uTable uRow) col = oldValOf uTable uRow col))
         \<and> encodePK uEngine uVals2 (idx_cols (primaryIndex uTable)) [] = Inr pk
         \<and> pk = pkOf uEngine uTable uVals2
         \<and> des uSummary2 =
             des (newTxSummary (Some uDB))
             @ map (tombstoneEntry uEngine uTable (currValues uTable uRow) pk)
                 (filter (\<lambda>i. \<not> IsPrimary i \<and> \<not> sameIndexKey (currValues uTable uRow) uVals2 i)
                    (rangeOver listOrder (indexes uTable)))
             @ [pke]
             @ map (liveEntry uEngine uTable uVals2 pk)
                 (filter (\<lambda>i. \<not> IsPrimary i \<and> \<not> sameIndexKey (currValues uTable uRow) uVals2 i)
                    (rangeOver index1Last (indexes uTable)))
         \<and> (\<forall>i. kv_Value (tombstoneEntry uEngine uTable (currValues uTable uRow) pk i) ! 0 = 1
                \<and> kv_Value (liveEntry uEngine uTable uVals2 pk i) ! 0 = 0)"
  by (rule upsert_index_entries [OF _ _ _ u2_valuesLoop u2_fetch u2_compileRow])
    (simp_all add: uStmt_def uTable_def uPK_def uIdxEmail_def uIdxTag_def)

subsection \<open>Auto-incremental primary keys\<close>


lemma valuesLoop_append:
  "valuesLoop e stmt params db table selPos row (pre @ post) vals =
     (case valuesLoop e stmt params db table selPos row pre vals of
        Inl err \<Rightarrow> Inl err
      | Inr vs \<Rightarrow> valuesLoop e stmt params db table selPos row post vs)"
  by (induction pre arbitrary: vals) (auto split: option.splits sum.splits)


lemma map_of_assign_same: "map_of (assign k v m) k = Some v"
  by (induction m) auto


lemma sless_succ: "sint (x :: 64 word) < 2 ^ 63 - 1 \<Longrightarrow> x <s x + 1"
proof -
  assume b: "sint x < 2 ^ 63 - 1"
  have lo: "- (2 ^ 63) \<le> sint x" using sint_ge [of x] by simp
  have "sint (x + 1) = signed_take_bit 63 (sint x + 1)"
    by (simp add: sint_word_ariths)
  also have "\<dots> = sint x + 1"
    using b lo by (intro signed_take_bit_int_eq_self) auto
  finally show ?thesis by (simp add: word_sless_alt)
qed


lemma encodePK_single:
  "encodePK e vals [pkCol] [] = Inr pk \<Longrightarrow> map_of vals (col_id pkCol) = Some v \<Longrightarrow>
   pk = fst (EncodeAsKey e (Value v) (colType pkCol) (MaxLen e pkCol))"
  by (auto split: prod.splits option.splits if_splits)


lemma compileRow_autoinc:
  assumes ins: "isInsert stmt" and auto: "autoIncrementPK table"
    and ok: "compileRow e stmt params db selPos visits row table mutated summary = (Inr summary', table', mutated')"
  shows "table' = table\<lparr>maxPK := maxPK table + 1\<rparr> \<and> mutated'
         \<and> map_of (lastInsertedPKs summary') (tbl_name table) = Some (maxPK table + 1)
         \<and> (\<forall>pkCol. idx_cols (primaryIndex table) = [pkCol] \<longrightarrow>
               (\<exists>valbuf lives.
                  des summary' =
                    des summary
                    @ primaryEntry e table'
                        (fst (EncodeAsKey e (GoInt64 (maxPK table + 1)) (colType pkCol) (MaxLen e pkCol)))
                        valbuf None
                    # lives))"
proof -
  from compileRow_success [OF ok] ins auto obtain vals0 pkCol others where
    pkc: "idx_cols (primaryIndex table) = pkCol # others"
    and t': "table' = table\<lparr>maxPK := maxPK table + 1\<rparr>" and m': "mutated'"
    and tail: "compileRowTail e stmt visits table'
                 (assign (col_id pkCol) (Number (maxPK table + 1)) vals0)
                 (summary\<lparr>lastInsertedPKs :=
                            assign (tbl_name table) (maxPK table + 1) (lastInsertedPKs summary)\<rparr>)
               = Inr summary'"
    by auto
  let ?vals = "assign (col_id pkCol) (Number (maxPK table + 1)) vals0"
  from compileRowTail_result [OF tail] ins obtain pk valbuf where
    pk: "encodePK e ?vals (idx_cols (primaryIndex table')) [] = Inr pk"
    and s': "summary' = summary
              \<lparr>lastInsertedPKs := assign (tbl_name table) (maxPK table + 1) (lastInsertedPKs summary),
               des := des summary
                        @ [primaryEntry e table' pk valbuf (pkConstraint stmt table')]
                        @ map (liveEntry e table' ?vals pk)
                            (filter (\<lambda>i. \<not> IsPrimary i) (rangeOver (snd visits) (indexes table'))),
               updatedRows := updatedRows summary + 1\<rparr>"
    by auto
  have li: "map_of (lastInsertedPKs summary') (tbl_name table) = Some (maxPK table + 1)"
    using s' by (simp add: map_of_assign_same)
  have pc: "pkConstraint stmt table' = None"
    using ins auto t' by (simp add: pkConstraint_def)
  have "\<exists>valbuf lives.
                  des summary' =
                    des summary
                    @ primaryEntry e table'
                        (fst (EncodeAsKey e (GoInt64 (maxPK table + 1)) (colType c) (MaxLen e c)))
                        valbuf None
                    # lives" if single: "idx_cols (primaryIndex table) = [c]" for c
  proof -
    from single pkc have c: "c = pkCol" by simp
    from pk t' single have "encodePK e ?vals [c] [] = Inr pk" by simp
    from encodePK_single [OF this, of "Number (maxPK table + 1)"] c
    have "pk = fst (EncodeAsKey e (GoInt64 (maxPK table + 1)) (colType c) (MaxLen e c))"
      by (simp add: map_of_assign_same)
    with s' pc show ?thesis by auto
  qed
  with t' m' li show ?thesis by blast
qed


lemma compileRows_autoinc:
  assumes ins: "isInsert stmt"
  shows "autoIncrementPK table \<Longrightarrow>
         compileRows e stmt params db selPos visitsOf rows table mutated summary = (Inr summary', table', mutated') \<Longrightarrow>
         table' = table\<lparr>maxPK := maxPK table + of_nat (length rows)\<rparr>
         \<and> (rows \<noteq> [] \<longrightarrow> mutated'
               \<and> map_of (lastInsertedPKs summary') (tbl_name table) = Some (maxPK table'))"
proof (induction rows arbitrary: table mutated summary visitsOf)
  case Nil
  then show ?case by simp
next
  case (Cons row rows)
  from Cons.prems(2) obtain s1 t1 m1 where
    r1: "compileRow e stmt params db selPos (visitsOf 0) row table mutated summary = (Inr s1, t1, m1)"
    and rest: "compileRows e stmt params db selPos (\<lambda>n. visitsOf (Suc n)) rows t1 m1 s1
                 = (Inr summary', table', mutated')"
    by (auto split: prod.splits sum.splits)
  from compileRow_autoinc [OF ins Cons.prems(1) r1]
  have t1: "t1 = table\<lparr>maxPK := maxPK table + 1\<rparr>" and m1: m1
    and l1: "map_of (lastInsertedPKs s1) (tbl_name table) = Some (maxPK table + 1)"
    by auto
  from t1 Cons.prems(1) have a1: "autoIncrementPK t1" by simp
  note IH = Cons.IH [OF a1 rest]
  show ?case
  proof (cases rows)
    case Nil
    with rest have "summary' = s1" "table' = t1" "mutated' = m1" by simp_all
    with Nil m1 l1 show ?thesis by (simp add: t1)
  next
    case (Cons r rs)
    with IH t1 show ?thesis by (simp add: add.assoc add.commute)
  qed
qed

lemmas s_defs = testEngine_def sStmt_def sTable_def sDB_def sColId_def sColName_def sPK_def
  testExt_def


lemma s_compileUsing:
  "UpsertIntoStmt_compileUsing testEngine
     (sStmt True [''name''] [[TV (Varchar ''x'')], [TV (Varchar ''y'')]])
     (\<lambda>n. (listOrder, listOrder)) (Some (sDB [sColId, sColName] 7)) Map.empty False
   = (Inr sSummary, Some (sTable [sColId, sColName] 9, True))"
  by (simp add: UpsertIntoStmt_compileUsing_def referencedTable_def GetTableByName_def
      validate_def GetColumnByName_def compileRow_def compileRowTail_def rangeOver_def
      pkConstraint_def newTxSummary_def sSummary_def s_defs enc_defs)


lemma s_compileRows:
  "compileRows testEngine (sStmt True [''name''] [[TV (Varchar ''x'')], [TV (Varchar ''y'')]])
     Map.empty (sDB [sColId, sColName] 7) [(2, 0)] (\<lambda>n. (listOrder, listOrder))
     [[TV (Varchar ''x'')], [TV (Varchar ''y'')]]
     (sTable [sColId, sColName] 7) False (newTxSummary (Some (sDB [sColId, sColName] 7)))
   = (Inr sSummary, sTable [sColId, sColName] 9, True)"
  by (simp add: compileRow_def compileRowTail_def rangeOver_def
      pkConstraint_def newTxSummary_def sSummary_def s_defs enc_defs)

text \<open>
  C7, as the claim states it, fails in three places. Over the table
  \<open>s (name VARCHAR[20] NOT NULL, id INTEGER AUTO_INCREMENT, PRIMARY KEY id)\<close>, the statement
  \<open>INSERT INTO s (id) VALUES (1)\<close> supplies the key and fails with
  \<open>NotNullableColumnCannotBeNull\<close> when the loop over the columns meets \<open>name\<close> before
  \<open>id\<close> (Go visits \<open>colsByID\<close> in an unspecified order; the model follows the order of the
  columns). \<open>INSERT INTO s (id, name) VALUES (1)\<close> supplies the key and fails with
  \<open>InvalidNumberOfValues\<close>, checked before any column. And with the counter at the largest
  \<open>int64\<close>, an \<open>INSERT\<close> leaves it at the smallest one, which is not greater.
\<close>

theorem insert_auto_increment_counterexample:
  "fst (UpsertIntoStmt_compileUsing testEngine (sStmt True [''id''] [[TV (Number 1)]])
          (\<lambda>n. (listOrder, listOrder)) (Some (sDB [sColName, sColId] 7)) Map.empty False)
     = Inl ErrNotNullableColumnCannotBeNull
   \<and> fst (UpsertIntoStmt_compileUsing testEngine (sStmt True [''id'', ''name''] [[TV (Number 1)]])
          (\<lambda>n. (listOrder, listOrder)) (Some (sDB [sColId, sColName] 7)) Map.empty False)
     = Inl ErrInvalidNumberOfValues
   \<and> map_option (maxPK \<circ> fst)
        (snd (UpsertIntoStmt_compileUsing testEngine (sStmt True [''name''] [[TV (Varchar ''x'')]])
          (\<lambda>n. (listOrder, listOrder)) (Some (sDB [sColId, sColName] 0x7FFFFFFFFFFFFFFF))
          Map.empty False))
     = Some 0x8000000000000000
   \<and> (0x8000000000000000 :: int64) <s 0x7FFFFFFFFFFFFFFF"
  by (simp add: UpsertIntoStmt_compileUsing_def referencedTable_def GetTableByName_def
      validate_def GetColumnByName_def compileRow_def compileRowTail_def rangeOver_def
      pkConstraint_def newTxSummary_def s_defs enc_defs)

text \<open>
  C7, amended. For every \<open>INSERT\<close>: a row of the right length that supplies a value for an
  auto-incremental column never compiles; it fails with \<open>NoValueForAutoIncrementalColumn\<close>
  unless the check of a column visited earlier fails first, and then with that column's error
  (the table and the \<open>mutated\<close> flag are untouched). Into a table whose primary key is
  auto-incremental, each compiled row increments \<open>table.maxPK\<close> by exactly one (in 64-bit
  arithmetic), marks the catalog as mutated, uses the new counter as the row's primary key (the
  key of its primary entry, which carries no constraint) and records it under the table's name
  in \<open>lastInsertedPKs\<close>; the key is strictly greater than the previous counter as long as
  that is below the largest \<open>int64\<close>. A statement that compiles \<open>n\<close> rows leaves the counter
  \<open>n\<close> higher, and if \<open>n > 0\<close> its summary maps the table name in \<open>lastInsertedPKs\<close> to
  the final counter, the last key assigned.
\<close>

theorem insert_auto_increment:
  assumes ins: "isInsert stmt"
  shows "(autoIncrement col \<and> map_of selPos (col_id col) \<noteq> None \<and> tbl_cols table = pre @ col # post
          \<and> length row = length (ups_cols stmt) \<longrightarrow>
            compileRow e stmt params db selPos visits row table mutated summary =
              ((case valuesLoop e stmt params db table selPos row pre [] of
                  Inl err \<Rightarrow> Inl err
                | Inr vs \<Rightarrow> Inl ErrNoValueForAutoIncrementalColumn), table, mutated))
       \<and> (autoIncrementPK table
          \<and> compileRow e stmt params db selPos visits row table mutated summary = (Inr summary', table', mutated') \<longrightarrow>
            table' = table\<lparr>maxPK := maxPK table + 1\<rparr> \<and> mutated'
          \<and> map_of (lastInsertedPKs summary') (tbl_name table) = Some (maxPK table + 1)
          \<and> (sint (maxPK table) < 2 ^ 63 - 1 \<longrightarrow> maxPK table <s maxPK table')
          \<and> (\<forall>pkCol. idx_cols (primaryIndex table) = [pkCol] \<longrightarrow>
               (\<exists>valbuf lives.
                  des summary' =
                    des summary
                    @ primaryEntry e table'
                        (fst (EncodeAsKey e (GoInt64 (maxPK table + 1)) (colType pkCol) (MaxLen e pkCol)))
                        valbuf None
                    # lives)))
       \<and> (autoIncrementPK table
          \<and> compileRows e stmt params db selPos visitsOf rows table mutated summary = (Inr summary', table', mutated') \<longrightarrow>
            table' = table\<lparr>maxPK := maxPK table + of_nat (length rows)\<rparr>
          \<and> (rows \<noteq> [] \<longrightarrow> mutated'
               \<and> map_of (lastInsertedPKs summary') (tbl_name table) = Some (maxPK table')))"
proof (intro conjI impI)
  assume a: "autoIncrement col \<and> map_of selPos (col_id col) \<noteq> None \<and> tbl_cols table = pre @ col # post
          \<and> length row = length (ups_cols stmt)"
  then have "valuesLoop e stmt params db table selPos row (col # post) vs = Inl ErrNoValueForAutoIncrementalColumn" for vs
    using ins by auto
  with a show "compileRow e stmt params db selPos visits row table mutated summary =
              ((case valuesLoop e stmt params db table selPos row pre [] of
                  Inl err \<Rightarrow> Inl err
                | Inr vs \<Rightarrow> Inl ErrNoValueForAutoIncrementalColumn), table, mutated)"
    by (simp add: compileRow_def valuesLoop_append split: sum.splits)
next
  assume b: "autoIncrementPK table
          \<and> compileRow e stmt params db selPos visits row table mutated summary = (Inr summary', table', mutated')"
  note r = compileRow_autoinc [OF ins conjunct1 [OF b] conjunct2 [OF b]]
  from r show "table' = table\<lparr>maxPK := maxPK table + 1\<rparr>" by simp
  from r show "mutated'" by simp
  from r show "map_of (lastInsertedPKs summary') (tbl_name table) = Some (maxPK table + 1)" by simp
  from r show "\<forall>pkCol. idx_cols (primaryIndex table) = [pkCol] \<longrightarrow>
               (\<exists>valbuf lives.
                  des summary' =
                    des summary
                    @ primaryEntry e table'
                        (fst (EncodeAsKey e (GoInt64 (maxPK table + 1)) (colType pkCol) (MaxLen e pkCol)))
                        valbuf None
                    # lives)" by blast
  assume "sint (maxPK table) < 2 ^ 63 - 1"
  from sless_succ [OF this] r show "maxPK table <s maxPK table'" by simp
next
  assume c: "autoIncrementPK table
          \<and> compileRows e stmt params db selPos visitsOf rows table mutated summary = (Inr summary', table', mutated')"
  note r = compileRows_autoinc [OF ins conjunct1 [OF c] conjunct2 [OF c]]
  from r show "table' = table\<lparr>maxPK := maxPK table + of_nat (length rows)\<rparr>" by simp
  assume "rows \<noteq> []"
  with r show "mutated'" by simp
  from r \<open>rows \<noteq> []\<close> show "map_of (lastInsertedPKs summary') (tbl_name table) = Some (maxPK table')" by simp
qed

theorem insert_auto_increment_witness:
  "compileRow testEngine (sStmt True [''id''] [[TV (Number 1)]]) Map.empty (sDB [sColId, sColName] 7)
      [(1, 0)] (listOrder, listOrder) [TV (Number 1)] (sTable [sColId, sColName] 7) False
      (newTxSummary (Some (sDB [sColId, sColName] 7)))
     = (Inl ErrNoValueForAutoIncrementalColumn, sTable [sColId, sColName] 7, False)
   \<and> compileRows testEngine (sStmt True [''name''] [[TV (Varchar ''x'')], [TV (Varchar ''y'')]])
       Map.empty (sDB [sColId, sColName] 7) [(2, 0)] (\<lambda>n. (listOrder, listOrder))
       [[TV (Varchar ''x'')], [TV (Varchar ''y'')]]
       (sTable [sColId, sColName] 7) False (newTxSummary (Some (sDB [sColId, sColName] 7)))
     = (Inr sSummary, sTable [sColId, sColName] 9, True)
   \<and> maxPK (sTable [sColId, sColName] 9) = maxPK (sTable [sColId, sColName] 7) + 2
   \<and> map_of (lastInsertedPKs sSummary) ''s'' = Some 9"
  using
    insert_auto_increment [where stmt = "sStmt True [''id''] [[TV (Number 1)]]" and col = sColId
      and pre = "[]" and post = "[sColName]" and selPos = "[(1, 0)]" and row = "[TV (Number 1)]"
      and table = "sTable [sColId, sColName] 7" and e = testEngine and params = Map.empty
      and db = "sDB [sColId, sColName] 7" and mutated = False
      and visits = "(listOrder, listOrder)"
      and summary = "newTxSummary (Some (sDB [sColId, sColName] 7))"]
    insert_auto_increment [where stmt = "sStmt True [''name''] [[TV (Varchar ''x'')], [TV (Varchar ''y'')]]"
      and rows = "[[TV (Varchar ''x'')], [TV (Varchar ''y'')]]" and selPos = "[(2, 0)]"
      and table = "sTable [sColId, sColName] 7" and e = testEngine and params = Map.empty
      and db = "sDB [sColId, sColName] 7" and mutated = False
      and visitsOf = "\<lambda>n. (listOrder, listOrder)"
      and summary = "newTxSummary (Some (sDB [sColId, sColName] 7))"
      and summary' = sSummary and table' = "sTable [sColId, sColName] 9" and mutated' = True]
    s_compileRows
  by (simp add: sStmt_def sTable_def sColId_def sColName_def sSummary_def)

end
